theory Spec2Isabelle
  imports Complex_Main "HOL-Library.AList"
begin

section \<open>Tables of the network\<close>

text \<open>
  A network holds a node table and an edge table (class \<open>Network\<close> of
  \<open>simplify.py\<close>).  Rows are records, a table is the list of its rows in row order,
  and every table carries the default row index \<open>0..n-1\<close> (each stage of the module ends
  with \<open>reset_index\<close>), so a row label is a row position.  The \<open>degree\<close> column of
  the node table exists only after a stage has computed it, so it is kept as an optional
  column beside the rows.  Geometries are values of a type \<open>'g\<close> of the geometry
  library; the passthrough attribute columns of an edge are one value of type \<open>'a\<close>.
  Distances and lengths are values of a linearly ordered type \<open>'d\<close>.
\<close>

datatype error = ValueError | IndexError | KeyError | AttributeError | TypeError | NewRowLabel

datatype msg =
    Calculate_degree_unhappy
  | Not_connected nat
  | Failed_to_merge int int
  | From_or_to_id_out_of_index
  | Max_node_id int
  | Max_from_id int
  | Max_to_id int
  | Degree_not_calculated
  | Degree_mismatch
  | Eh
  | Multiple_geometries int

record 'g node =
  nid :: int
  ngeometry :: 'g

record ('g, 'a) edge =
  eid :: int
  geometry :: 'g
  from_id :: int
  to_id :: int
  attrs :: 'a

text \<open>An edge row before topology building: it has an id but no endpoint references yet.\<close>

record ('g, 'a) idrow =
  rid :: int
  rgeometry :: 'g
  rattrs :: 'a

text \<open>The node rows have type \<open>'n\<close>, the edge rows type \<open>'e\<close>.\<close>

record ('n, 'e) network =
  nodes :: "'n list"
  degree :: "int list option"
  edges :: "'e list"

section \<open>Exceptions and library arrays\<close>

text \<open>
  A raised exception is the left injection of a sum; \<open>ebind\<close> runs the rest of a
  function body on the value of a call that returned, and passes the exception on
  otherwise.
\<close>

definition ebind :: "error + 'x \<Rightarrow> ('x \<Rightarrow> error + 'y) \<Rightarrow> error + 'y" where
  "ebind m f = (case m of Inl e \<Rightarrow> Inl e | Inr x \<Rightarrow> f x)"

lemma ebind_Inr [simp]: "ebind (Inr x) f = f x"
  by (simp add: ebind_def)

lemma ebind_Inl [simp]: "ebind (Inl e) f = Inl e"
  by (simp add: ebind_def)

text \<open>Python's \<open>max\<close> of a column: it raises \<open>ValueError\<close> on an empty one.\<close>

definition py_max :: "int list \<Rightarrow> error + int" where
  "py_max xs = (case xs of [] \<Rightarrow> Inl ValueError | y # ys \<Rightarrow> Inr (fold max ys y))"

text \<open>
  \<open>numpy.bincount(x, None, minlength)\<close>: a negative entry raises, the result has
  \<open>max (minlength, max x + 1)\<close> bins, and bin \<open>i\<close> counts the entries equal to \<open>i\<close>.
\<close>

definition bincount :: "int list \<Rightarrow> nat \<Rightarrow> error + int list" where
  "bincount xs minlength =
     (if list_ex (\<lambda>x. x < 0) xs then Inl ValueError
      else Inr (map (\<lambda>i. int (count_list xs (int i)))
                  [0 ..< max minlength (case xs of [] \<Rightarrow> 0 | y # ys \<Rightarrow> nat (fold max ys y) + 1)]))"

text \<open>
  The sum of two one-dimensional arrays: pointwise on equal lengths, an array of length
  one is broadcast, any other pair of lengths raises.
\<close>

definition np_add :: "int list \<Rightarrow> int list \<Rightarrow> error + int list" where
  "np_add a b =
     (if length a = length b then Inr (map2 (+) a b)
      else if length a = 1 then Inr (map (\<lambda>y. hd a + y) b)
      else if length b = 1 then Inr (map (\<lambda>x. x + hd b) a)
      else Inl ValueError)"

text \<open>
  Reading \<open>a[i]\<close> of an array of length \<open>n\<close>: a negative index counts from the end, an
  index outside \<open>-n..n-1\<close> raises \<open>IndexError\<close>.
\<close>

definition np_index :: "nat \<Rightarrow> int \<Rightarrow> error + nat" where
  "np_index n i =
     (if 0 \<le> i \<and> i < int n then Inr (nat i)
      else if - int n \<le> i \<and> i < 0 then Inr (nat (int n + i))
      else Inl IndexError)"

text \<open>Decrementing and reading one cell of an array.\<close>

definition np_dec :: "int list \<Rightarrow> int \<Rightarrow> error + int list" where
  "np_dec deg i = ebind (np_index (length deg) i) (\<lambda>k. Inr (deg[k := deg ! k - 1]))"

definition np_get :: "int list \<Rightarrow> int \<Rightarrow> error + int" where
  "np_get deg i = ebind (np_index (length deg) i) (\<lambda>k. Inr (deg ! k))"

text \<open>\<open>table.iloc[i]\<close> for a position \<open>i\<close> that a spatial index returned.\<close>

definition iloc :: "'r list \<Rightarrow> nat \<Rightarrow> error + 'r" where
  "iloc rows i = (if i < length rows then Inr (rows ! i) else Inl IndexError)"

text \<open>
  Python's \<open>min(xs, key=...)\<close>: the first element with the least key, and
  \<open>ValueError\<close> on an empty sequence.
\<close>

definition py_min_by :: "('x \<Rightarrow> 'd::linorder) \<Rightarrow> 'x list \<Rightarrow> error + 'x" where
  "py_min_by key xs =
     (case xs of
        [] \<Rightarrow> Inl ValueError
      | y # ys \<Rightarrow> Inr (fold (\<lambda>x best. if key x < key best then x else best) ys y))"

text \<open>A comprehension and a loop whose body may raise.\<close>

fun emap :: "('x \<Rightarrow> error + 'y) \<Rightarrow> 'x list \<Rightarrow> error + 'y list" where
  "emap f [] = Inr []"
| "emap f (x # xs) = ebind (f x) (\<lambda>y. ebind (emap f xs) (\<lambda>ys. Inr (y # ys)))"

fun efold :: "('x \<Rightarrow> 's \<Rightarrow> error + 's) \<Rightarrow> 'x list \<Rightarrow> 's \<Rightarrow> error + 's" where
  "efold f [] s = Inr s"
| "efold f (x # xs) s = ebind (f x s) (efold f xs)"

text \<open>
  \<open>dict(pairs)\<close>: the items of the dictionary, in insertion order of the keys; a key
  that comes again keeps its place and takes the later value.
\<close>

definition py_dict :: "('k \<times> 'v) list \<Rightarrow> ('k \<times> 'v) list" where
  "py_dict kvs = fold (\<lambda>(k, v). AList.update k v) kvs []"

text \<open>\<open>arr[col == k] = v\<close>: the cells of \<open>arr\<close> where the column \<open>col\<close> holds \<open>k\<close>.\<close>

definition mask_assign :: "int list \<Rightarrow> int \<Rightarrow> int \<Rightarrow> int list \<Rightarrow> int list" where
  "mask_assign col k v arr = map2 (\<lambda>c a. if c = k then v else a) col arr"

section \<open>Geometry library\<close>

text \<open>
  The calls into the geometry and spatial-index library (pygeos, pyproj) that the stages
  make; \<open>'s\<close> is the type of a coordinate value, a vertex is a pair of them.
  \<^item> \<open>tree_query gs g\<close> is \<open>STRtree(gs).query(g)\<close>, the positions in \<open>gs\<close> of the
    geometries whose bounding box meets the one of \<open>g\<close>; \<open>tree_intersects gs g\<close> is the
    same query with \<open>predicate='intersects'\<close>, and \<open>buffer_query gs g\<close> is that query
    for the buffer of \<open>g\<close> by \<open>1e-9\<close> (for \<open>g\<close> itself when the buffer is
    empty), as \<open>_intersects_pyg\<close> makes it.  The lists are in the order in which the code
    iterates the result (for \<open>tree_intersects\<close>, the iteration order of the Python set
    built from it).
  \<^item> \<open>get_point g i\<close> is the vertex \<open>i\<close> of a line as a point geometry,
    \<open>get_coordinates\<close> the vertices of a geometry, \<open>linestrings\<close> the line through
    given vertices, \<open>line_merge_multi gs\<close> is \<open>line_merge(multilinestrings(gs))\<close>.
  \<^item> \<open>is_missing g\<close> says that \<open>g\<close> is Python's \<open>None\<close>.
  \<^item> \<open>split_points g hs\<close> are the coordinates that \<open>split_edges_at_nodes_pyg\<close>
    computes for the edge geometry \<open>g\<close> from the geometries \<open>hs\<close> that meet it:
    the intersections of \<open>g\<close> with those of the \<open>hs\<close> that do not cover it, their
    points, snapped to \<open>g\<close>.
  \<^item> \<open>projected_length n g\<close> is the length of \<open>g\<close> in metres after the projection
    that \<open>add_distances\<close> chooses from the position of the first node \<open>n\<close>;
    \<open>per_speed d v\<close> is the quotient \<open>d / v\<close> of a distance and a speed;
    \<open>tolerance_default\<close> is the default tolerance \<open>0.005\<close> of
    \<open>drop_hanging_nodes\<close>.
\<close>

record ('g, 's, 'd) geolib =
  tree_query :: "'g list \<Rightarrow> 'g \<Rightarrow> nat list"
  tree_intersects :: "'g list \<Rightarrow> 'g \<Rightarrow> nat list"
  buffer_query :: "'g list \<Rightarrow> 'g \<Rightarrow> nat list"
  distance :: "'g \<Rightarrow> 'g \<Rightarrow> 'd"
  glength :: "'g \<Rightarrow> 'd"
  get_point :: "'g \<Rightarrow> int \<Rightarrow> 'g"
  get_coordinates :: "'g \<Rightarrow> ('s \<times> 's) list"
  linestrings :: "('s \<times> 's) list \<Rightarrow> 'g"
  line_merge_multi :: "'g list \<Rightarrow> 'g"
  get_type_id :: "'g \<Rightarrow> int"
  get_num_geometries :: "'g \<Rightarrow> nat"
  is_ring :: "'g \<Rightarrow> bool"
  centroid :: "'g \<Rightarrow> 'g"
  is_missing :: "'g \<Rightarrow> bool"
  split_points :: "'g \<Rightarrow> 'g list \<Rightarrow> ('s \<times> 's) list"
  projected_length :: "'g \<Rightarrow> 'g \<Rightarrow> 'd"
  per_speed :: "'d \<Rightarrow> int \<Rightarrow> 'd"
  tolerance_default :: 'd

section \<open>Degree engine\<close>

text \<open>
  \<open>calculate_degree\<close>: the guard of the diagnostic line takes the maximum of both id
  columns (the second only when the first comparison holds, as \<open>and\<close> does), then the two
  bin counts are added.  The printed line is returned with the degrees.
\<close>

definition degree_guard :: "('n, ('g, 'a) edge) network \<Rightarrow> error + bool" where
  "degree_guard network =
     (let ndC = length (nodes network);
          froms = map from_id (edges network);
          tos = map to_id (edges network)
      in ebind (py_max froms) (\<lambda>mf.
           if int ndC - 1 > mf
           then ebind (py_max tos) (\<lambda>mt. Inr (int ndC - 1 > mt))
           else Inr False))"

definition calculate_degree :: "('n, ('g, 'a) edge) network \<Rightarrow> error + (msg list \<times> int list)" where
  "calculate_degree network =
     (let ndC = length (nodes network);
          froms = map from_id (edges network);
          tos = map to_id (edges network)
      in ebind (degree_guard network) (\<lambda>unhappy.
         ebind (bincount froms ndC) (\<lambda>bf.
         ebind (bincount tos ndC) (\<lambda>bt.
         ebind (np_add bf bt) (\<lambda>d.
         Inr (if unhappy then [Calculate_degree_unhappy] else [], d))))))"

section \<open>Topology builder\<close>

definition line_endpoints :: "('g, 's, 'd) geolib \<Rightarrow> 'g \<Rightarrow> 'g \<times> 'g" where
  "line_endpoints L line = (get_point L line 0, get_point L line (- 1))"

text \<open>
  \<open>nearest\<close>: the rows at the positions the index returns, and among them the first
  one nearest to the geometry; \<open>min\<close> raises when the index returns nothing.
\<close>

definition nearest ::
  "('g, 's, 'd::linorder) geolib \<Rightarrow> 'g \<Rightarrow> 'g node list \<Rightarrow> ('g \<Rightarrow> nat list) \<Rightarrow> error + 'g node" where
  "nearest L geom gdf sindex =
     ebind (emap (iloc gdf) (sindex geom)) (\<lambda>ms.
       py_min_by (\<lambda>m. distance L (ngeometry m) geom) ms)"

definition nearest_node ::
  "('g, 's, 'd::linorder) geolib \<Rightarrow> 'g \<Rightarrow> 'g node list \<Rightarrow> ('g \<Rightarrow> nat list) \<Rightarrow> error + 'g node" where
  "nearest_node L point nds sindex = nearest L point nds sindex"

text \<open>
  One turn of the loop of \<open>add_topology\<close>.  Each of the two \<open>try\<close> blocks appends
  the id of the nearest node, or on any exception appends the edge id to \<open>bugs\<close> and
  \<open>-1\<close> to the id list.
\<close>

definition topology_step ::
  "('g, 's, 'd::linorder) geolib \<Rightarrow> 'g node list \<Rightarrow> ('g \<Rightarrow> nat list) \<Rightarrow>
     int list \<times> int list \<times> int list \<Rightarrow> ('g, 'a) idrow \<Rightarrow> int list \<times> int list \<times> int list" where
  "topology_step L nds sindex = (\<lambda>(from_ids, to_ids, bugs) edge.
     (let (start, end) = line_endpoints L (rgeometry edge);
          (from_ids1, bugs1) =
            (case nearest_node L start nds sindex of
               Inr start_node \<Rightarrow> (from_ids @ [nid start_node], bugs)
             | Inl _ \<Rightarrow> (from_ids @ [- 1], bugs @ [rid edge]));
          (to_ids1, bugs2) =
            (case nearest_node L end nds sindex of
               Inr end_node \<Rightarrow> (to_ids @ [nid end_node], bugs1)
             | Inl _ \<Rightarrow> (to_ids @ [- 1], bugs1 @ [rid edge]))
      in (from_ids1, to_ids1, bugs2)))"

text \<open>
  \<open>add_topology\<close> prints the length of \<open>bugs\<close>, sets the two id columns and keeps
  the rows whose id is not in \<open>bugs\<close>.  The node table is handed on as it came.
\<close>

definition add_topology ::
  "('g, 's, 'd::linorder) geolib \<Rightarrow> ('g node, ('g, 'a) idrow) network \<Rightarrow>
     msg list \<times> ('g node, ('g, 'a) edge) network" where
  "add_topology L network =
     (let sindex = tree_query L (map ngeometry (nodes network));
          (from_ids, to_ids, bugs) =
             foldl (topology_step L (nodes network) sindex) ([], [], []) (edges network);
          edges1 = map (\<lambda>(e, f, t).
                      \<lparr>eid = rid e, geometry = rgeometry e, from_id = f, to_id = t, attrs = rattrs e\<rparr>)
                    (zip (edges network) (zip from_ids to_ids))
      in ([Not_connected (length bugs)],
          \<lparr>nodes = nodes network, degree = degree network,
           edges = filter (\<lambda>e. eid e \<notin> set bugs) edges1\<rparr>))"

section \<open>Hanging-node pruner\<close>

text \<open>
  One turn of the loop of \<open>drop_hanging_nodes\<close> on the candidate row \<open>d\<close>: the two
  \<open>if\<close> statements run one after the other on the live degree array.
\<close>

definition dec_both :: "int list \<Rightarrow> ('g, 'a) edge \<Rightarrow> error + int list" where
  "dec_both deg d = ebind (np_dec deg (from_id d)) (\<lambda>deg1. np_dec deg1 (to_id d))"

definition hanging_step ::
  "('g \<Rightarrow> 'd::linorder) \<Rightarrow> 'd \<Rightarrow> ('g, 'a) edge \<Rightarrow> int list \<times> int list \<Rightarrow>
     error + (int list \<times> int list)" where
  "hanging_step glen tolerance d = (\<lambda>(edge_id_drop, deg).
     ebind (if glen (geometry d) < tolerance
            then ebind (dec_both deg d) (\<lambda>deg1. Inr (edge_id_drop @ [eid d], deg1))
            else Inr (edge_id_drop, deg)) (\<lambda>(drop1, deg1).
     ebind (np_get deg1 (from_id d)) (\<lambda>df.
     ebind (if df = 1 then ebind (np_get deg1 (to_id d)) (\<lambda>dt. Inr (dt = 1)) else Inr False) (\<lambda>both.
       if both
       then ebind (dec_both deg1 d) (\<lambda>deg2. Inr (drop1 @ [eid d], deg2))
       else Inr (drop1, deg1)))))"

text \<open>
  The candidate rows: the positions of the edges whose \<open>to_id\<close> is a degree-1 node,
  followed by those whose \<open>from_id\<close> is one (\<open>hstack\<close>), sorted; \<open>iloc\<close> with this
  array gives one row per entry.
\<close>

definition hanging_candidates :: "int list \<Rightarrow> ('g, 'a) edge list \<Rightarrow> ('g, 'a) edge list" where
  "hanging_candidates deg ed =
     (let hangNodes = map int (filter (\<lambda>i. deg ! i = 1) [0 ..< length deg]);
          hangTo = filter (\<lambda>i. to_id (ed ! i) \<in> set hangNodes) [0 ..< length ed];
          hangFrom = filter (\<lambda>i. from_id (ed ! i) \<in> set hangNodes) [0 ..< length ed];
          eInd = hangTo @ hangFrom
      in map (\<lambda>i. ed ! i) (sort eInd))"

definition drop_hanging_nodes ::
  "('g, 's, 'd::linorder) geolib \<Rightarrow> 'd \<Rightarrow> ('n, ('g, 'a) edge) network \<Rightarrow>
     error + (msg list \<times> ('n, ('g, 'a) edge) network)" where
  "drop_hanging_nodes L tolerance network =
     ebind (case degree network of
              None \<Rightarrow> calculate_degree network
            | Some d \<Rightarrow> Inr ([], d)) (\<lambda>(out, deg).
     (let ed = edges network;
          degEd = hanging_candidates deg ed
      in ebind (efold (hanging_step (glength L) tolerance) degEd ([], deg)) (\<lambda>(edge_id_drop, deg1).
         (let edg = filter (\<lambda>e. eid e \<notin> set edge_id_drop) ed;
              edg1 = map (\<lambda>(e, i). e\<lparr>eid := i\<rparr>) (zip edg (map int [0 ..< length edg]))
          in if length deg1 = length (nodes network)
             then Inr (out, \<lparr>nodes = nodes network, degree = Some deg1, edges = edg1\<rparr>)
             else Inl ValueError))))"

section \<open>Degree-2 chain contractor\<close>

text \<open>
  The state of the loop of \<open>merge_2\<close>: the edge table \<open>edg\<close>, the live degree array
  \<open>deg\<close> (the array of the \<open>degree\<close> column of the node table \<open>nod\<close>, so that a write
  to it is a write to the column), the pending ids \<open>n2\<close> in the order in which
  \<open>pop\<close> returns them, the ids to remove and the lines printed so far.
\<close>

record ('g, 'a) m2state =
  edg :: "('g, 'a) edge list"
  deg :: "int list"
  n2 :: "int list"
  eIDtoRemove :: "int list"
  out :: "msg list"

text \<open>The variables of one outward walk.\<close>

record ('g, 'a) walk_vars =
  edgePath :: "('g, 'a) edge"
  nextNode :: int
  pos_0_deg :: "int list"
  pending :: "int list"
  newEdge :: "'g list"
  possibly_delete :: "int list"

text \<open>\<open>nodGeom[k]\<close>: a lookup by row label, which raises \<open>KeyError\<close> on a missing label.\<close>

definition nodGeom :: "('g node, 'e) network \<Rightarrow> int \<Rightarrow> error + 'g" where
  "nodGeom network k =
     (if 0 \<le> k \<and> k < int (length (nodes network)) then Inr (ngeometry (nodes network ! nat k))
      else Inl KeyError)"

text \<open>
  \<open>set(edg_sindex.query(g, predicate='intersects'))\<close>; the index is built once, on the
  edge geometries of the network that came in.
\<close>

definition edg_sindex_query ::
  "('g, 's, 'd) geolib \<Rightarrow> ('n, ('g, 'a) edge) network \<Rightarrow> 'g \<Rightarrow> nat list" where
  "edg_sindex_query L network g = remdups (tree_intersects L (map geometry (edges network)) g)"

text \<open>The node at the other end of an edge, as the conditional expressions compute it.\<close>

definition other_end :: "('g, 'a) edge \<Rightarrow> int \<Rightarrow> int" where
  "other_end e n = (if from_id e = n then to_id e else from_id e)"

text \<open>
  The body of the \<open>try\<close> block of a walk: the rows at the positions left in \<open>eID\<close>
  and the first of them nearest to the geometry of the node \<open>keyNode\<close>.
\<close>

definition walk_candidate ::
  "('g, 's, 'd::linorder) geolib \<Rightarrow> ('g node, ('g, 'a) edge) network \<Rightarrow> ('g, 'a) edge list \<Rightarrow> int \<Rightarrow>
     nat list \<Rightarrow> error + ('g, 'a) edge" where
  "walk_candidate L network edges_now keyNode eID =
     ebind (emap (iloc edges_now) eID) (\<lambda>rows.
       if rows = [] then Inl ValueError
       else ebind (nodGeom network keyNode) (\<lambda>kg.
              py_min_by (\<lambda>match. distance L kg (geometry match)) rows))"

text \<open>
  The statements of a walk after the \<open>try\<close> block, for the edge \<open>e\<close> it chose:
  the frontier node is recorded and taken from the pending set, the walk moves to the
  other end of \<open>e\<close>, and the geometry and the id of \<open>e\<close> are collected.
\<close>

definition advance :: "('g, 'a) walk_vars \<Rightarrow> ('g, 'a) edge \<Rightarrow> ('g, 'a) walk_vars" where
  "advance w e =
     w\<lparr>edgePath := e,
       pos_0_deg := pos_0_deg w @ [nextNode w],
       pending := removeAll (nextNode w) (pending w),
       nextNode := other_end e (nextNode w),
       newEdge := newEdge w @ [geometry e],
       possibly_delete := possibly_delete w @ [eid e]\<rparr>"

text \<open>
  One \<open>while deg[nextNode] == 2\<close> loop.  \<open>keyOf\<close> gives the node whose geometry is the
  key of \<open>min\<close>: in both loops of the source it is \<open>nextNode2\<close>, which the first loop
  does not change and which is the frontier of the second.  When the \<open>try\<close> block
  raises, \<open>continue\<close> starts the next turn with all variables as they were.
\<close>

partial_function (option) walk ::
  "('g, 's, 'd::linorder) geolib \<Rightarrow> ('g node, ('g, 'a) edge) network \<Rightarrow> ('g, 'a) edge list \<Rightarrow> int list \<Rightarrow>
     (int \<Rightarrow> int) \<Rightarrow> ('g, 'a) walk_vars \<Rightarrow> (error + ('g, 'a) walk_vars) option" where
  "walk L network edges_now degs keyOf w =
     (case np_get degs (nextNode w) of
        Inl e \<Rightarrow> Some (Inl e)
      | Inr d \<Rightarrow>
         if d \<noteq> 2 then Some (Inr w)
         else if nextNode w \<in> set (pos_0_deg w) then Some (Inr w)
         else
           (case nodGeom network (nextNode w) of
              Inl e \<Rightarrow> Some (Inl e)
            | Inr g \<Rightarrow>
               (case walk_candidate L network edges_now (keyOf (nextNode w))
                       (filter (\<lambda>i. int i \<noteq> eid (edgePath w)) (edg_sindex_query L network g)) of
                  Inl _ \<Rightarrow> walk L network edges_now degs keyOf w
                | Inr e \<Rightarrow> walk L network edges_now degs keyOf (advance w e))))"

declare walk.simps [code]


text \<open>
  \<open>find_closest_2_edges\<close>: the nearest row, \<open>edgeIDs.remove\<close> of its id (which
  raises \<open>KeyError\<close> when the id is not one of the positions), and the nearest of the
  rest.
\<close>

definition find_closest_2_edges ::
  "('g, 's, 'd::linorder) geolib \<Rightarrow> nat list \<Rightarrow> ('g, 'a) edge list \<Rightarrow> 'g \<Rightarrow>
     error + (('g, 'a) edge \<times> ('g, 'a) edge)" where
  "find_closest_2_edges L edgeIDs edges_now nodGeometry =
     ebind (emap (iloc edges_now) edgeIDs) (\<lambda>rows.
     ebind (py_min_by (\<lambda>match. distance L nodGeometry (geometry match)) rows) (\<lambda>edgePath1.
       if list_ex (\<lambda>i. int i = eid edgePath1) edgeIDs
       then ebind (emap (iloc edges_now) (filter (\<lambda>i. int i \<noteq> eid edgePath1) edgeIDs)) (\<lambda>rows2.
            ebind (py_min_by (\<lambda>match. distance L nodGeometry (geometry match)) rows2) (\<lambda>edgePath2.
              Inr (edgePath1, edgePath2)))
       else Inl KeyError))"

text \<open>
  The two edges at the popped node: \<open>None\<close> when the index finds fewer than two (the
  first \<open>continue\<close>), the two rows in \<open>pop\<close> order when it finds two, the two nearest
  when it finds more.
\<close>

definition first_edges ::
  "('g, 's, 'd::linorder) geolib \<Rightarrow> ('g node, ('g, 'a) edge) network \<Rightarrow> ('g, 'a) edge list \<Rightarrow> int \<Rightarrow>
     error + (('g, 'a) edge \<times> ('g, 'a) edge) option" where
  "first_edges L network edges_now nodeID =
     ebind (nodGeom network nodeID) (\<lambda>node_geometry.
       (let eID = edg_sindex_query L network node_geometry
        in if length eID > 2
           then ebind (find_closest_2_edges L eID edges_now node_geometry) (\<lambda>p. Inr (Some p))
           else if length eID < 2 then Inr None
           else ebind (iloc edges_now (eID ! 0)) (\<lambda>edgePath1.
                ebind (iloc edges_now (eID ! 1)) (\<lambda>edgePath2.
                  Inr (Some (edgePath1, edgePath2))))))"

text \<open>
  \<open>edg.at[label, ...] = ...\<close> for the three columns of the representative edge.  The
  label is an edge id; when it is a row position the row is overwritten.  For any other
  label the source does not raise: pandas adds a row with that label whose other columns
  are missing values.  No row of this model can hold missing values, so the model does
  not follow such a run: its value is the marker \<open>NewRowLabel\<close>, which stands for
  no exception of the source.  The properties below that depend on \<open>set_edge\<close>
  are stated for runs without the marker, and the marker does not occur when the edge
  ids are the row positions (\<open>merge_2_no_new_row\<close>), as they are in the pipeline.
\<close>

definition set_edge ::
  "('g, 'a) edge list \<Rightarrow> int \<Rightarrow> 'g \<Rightarrow> int \<Rightarrow> int \<Rightarrow> error + ('g, 'a) edge list" where
  "set_edge edges_now label g f t =
     (if 0 \<le> label \<and> label < int (length edges_now)
      then Inr (edges_now[nat label := (edges_now ! nat label)\<lparr>geometry := g, from_id := f, to_id := t\<rparr>])
      else Inl NewRowLabel)"

text \<open>\<open>deg[x] = 0\<close>.\<close>

definition np_zero :: "int \<Rightarrow> int list \<Rightarrow> error + int list" where
  "np_zero x degs = ebind (np_index (length degs) x) (\<lambda>k. Inr (degs[k := 0]))"

text \<open>
  \<open>edg.at[label, 'geometry']\<close> read: \<open>KeyError\<close> when the label is no row position.
\<close>

definition at_geometry :: "('g, 'a) edge list \<Rightarrow> int \<Rightarrow> error + 'g" where
  "at_geometry edges_now label =
     (if 0 \<le> label \<and> label < int (length edges_now)
      then Inr (geometry (edges_now ! nat label))
      else Inl KeyError)"

text \<open>
  The end of an attempt, after both walks: the merge of the collected geometries, and
  either the update of the tables or, under \<open>print_err\<close>, the printed line.  The
  line shows the id of the first edge and the type id of the geometry in the row with
  that label, so printing it raises when there is no such row.
\<close>

definition finish ::
  "('g, 's, 'd) geolib \<Rightarrow> bool \<Rightarrow> int \<Rightarrow> int \<Rightarrow> ('g, 'a) walk_vars \<Rightarrow> ('g, 'a) m2state \<Rightarrow>
     error + ('g, 'a) m2state" where
  "finish L print_err info_first_edge nextNode1 w st =
     (let new_merged_geom = line_merge_multi L (newEdge w)
      in if get_type_id L new_merged_geom = 1
         then ebind (set_edge (edg st) info_first_edge new_merged_geom nextNode1 (nextNode w)) (\<lambda>edg1.
              ebind (efold np_zero (pos_0_deg w) (deg st)) (\<lambda>deg1.
                Inr (st\<lparr>edg := edg1, deg := deg1, n2 := pending w,
                       eIDtoRemove := eIDtoRemove st @ possibly_delete w\<rparr>)))
         else if print_err
              then ebind (at_geometry (edg st) info_first_edge) (\<lambda>g.
                     Inr (st\<lparr>n2 := pending w,
                            out := out st @ [Failed_to_merge info_first_edge (get_type_id L g)]\<rparr>))
              else Inr (st\<lparr>n2 := pending w\<rparr>))"

text \<open>
  One turn of the outer loop for the popped id \<open>nodeID\<close>; \<open>st\<close> is the state after
  the \<open>pop\<close>.  \<open>None\<close> is a walk that does not return.
\<close>

definition attempt ::
  "('g, 's, 'd::linorder) geolib \<Rightarrow> ('g node, ('g, 'a) edge) network \<Rightarrow> bool \<Rightarrow> int \<Rightarrow> ('g, 'a) m2state \<Rightarrow>
     (error + ('g, 'a) m2state) option" where
  "attempt L network print_err nodeID st =
     (case first_edges L network (edg st) nodeID of
        Inl e \<Rightarrow> Some (Inl e)
      | Inr None \<Rightarrow> Some (Inr st)
      | Inr (Some (edgePath1, edgePath2)) \<Rightarrow>
         (let nextNode1 = other_end edgePath1 nodeID;
              nextNode2 = other_end edgePath2 nodeID
          in if nextNode1 = nextNode2 then Some (Inr st)
             else
               (case walk L network (edg st) (deg st) (\<lambda>_. nextNode2)
                       \<lparr>edgePath = edgePath1, nextNode = nextNode1, pos_0_deg = [nodeID],
                        pending = n2 st,
                        newEdge = [geometry edgePath1, geometry edgePath2],
                        possibly_delete = [eid edgePath2]\<rparr> of
                  None \<Rightarrow> None
                | Some (Inl e) \<Rightarrow> Some (Inl e)
                | Some (Inr w1) \<Rightarrow>
                   (case walk L network (edg st) (deg st) (\<lambda>n. n)
                           (w1\<lparr>edgePath := edgePath2, nextNode := nextNode2\<rparr>) of
                      None \<Rightarrow> None
                    | Some (Inl e) \<Rightarrow> Some (Inl e)
                    | Some (Inr w2) \<Rightarrow>
                       Some (finish L print_err (eid edgePath1) (nextNode w1) w2 st)))))"

text \<open>
  A property of the variables that holds when a walk stops and is carried back over every
  turn holds between the start and the end of a walk that returns.
\<close>

lemma walk_rel:
  fixes L :: "('g, 's, 'd::linorder) geolib" and w :: "('g, 'a) walk_vars"
  assumes w: "walk L network edges_now degs keyOf w = Some (Inr w1)"
    and stop: "\<And>w d. np_get degs (nextNode w) = Inr d \<Longrightarrow> d \<noteq> 2 \<or> nextNode w \<in> set (pos_0_deg w) \<Longrightarrow> R w w"
    and adv: "\<And>w g e w1. np_get degs (nextNode w) = Inr 2 \<Longrightarrow> nextNode w \<notin> set (pos_0_deg w) \<Longrightarrow>
                nodGeom network (nextNode w) = Inr g \<Longrightarrow>
                walk_candidate L network edges_now (keyOf (nextNode w))
                  (filter (\<lambda>i. int i \<noteq> eid (edgePath w)) (edg_sindex_query L network g)) = Inr e \<Longrightarrow>
                R (advance w e) w1 \<Longrightarrow> R w w1"
  shows "R w w1"
proof -
  have gen: "walk L' network' edges_now' degs' keyOf' w' = Some r \<Longrightarrow> r = Inr w1 \<Longrightarrow>
       L' = L \<Longrightarrow> network' = network \<Longrightarrow> edges_now' = edges_now \<Longrightarrow> degs' = degs \<Longrightarrow> keyOf' = keyOf \<Longrightarrow>
       R w' w1"
    for L' :: "('g, 's, 'd) geolib" and network' edges_now' degs' keyOf' and w' :: "('g, 'a) walk_vars" and r w1
  proof (induct arbitrary: w1 rule: walk.raw_induct[rotated 1, consumes 1, case_names step])
    case (step wf L' network' edges_now' degs' keyOf' w' r)
    note eqs = step.prems(2-6)
    have ih: "wf L network edges_now degs keyOf v = Some (Inr v1) \<Longrightarrow> R v v1" for v v1
      using step.hyps(1)[of L network edges_now degs keyOf v "Inr v1" v1] by simp
    note body = step.hyps(2)[unfolded step.prems(1) eqs]
    show ?case
    proof (cases "np_get degs (nextNode w')")
      case (Inl e) with body show ?thesis by simp
    next
      case (Inr d)
      show ?thesis
      proof (cases "d \<noteq> 2 \<or> nextNode w' \<in> set (pos_0_deg w')")
        case True
        then have "w1 = w'" using body Inr by (auto split: if_splits)
        then show ?thesis using stop[OF Inr True] by simp
      next
        case False
        then have d2: "np_get degs (nextNode w') = Inr 2" and nin: "nextNode w' \<notin> set (pos_0_deg w')"
          using Inr by auto
        show ?thesis
        proof (cases "nodGeom network (nextNode w')")
          case (Inl e) with body d2 nin show ?thesis by simp
        next
          case g: (Inr g)
          show ?thesis
          proof (cases "walk_candidate L network edges_now (keyOf (nextNode w'))
                (filter (\<lambda>i. int i \<noteq> eid (edgePath w')) (edg_sindex_query L network g))")
            case (Inl x)
            with body d2 nin g have "wf L network edges_now degs keyOf w' = Some (Inr w1)" by simp
            from ih[OF this] show ?thesis .
          next
            case e: (Inr e)
            with body d2 nin g have "wf L network edges_now degs keyOf (advance w' e) = Some (Inr w1)" by simp
            from ih[OF this] have "R (advance w' e) w1" .
            from adv[OF d2 nin g e this] show ?thesis .
          qed
        qed
      qed
    qed
  qed
  from gen[OF w] show ?thesis by simp
qed

lemma walk_pending:
  fixes w :: "('g, 'a) walk_vars"
  assumes "walk L network edges_now degs keyOf w = Some (Inr w1)"
  shows "length (pending w1) \<le> length (pending w)"
proof (rule walk_rel[OF assms, where R = "\<lambda>w w1. length (pending w1) \<le> length (pending w)"])
  fix w w1 :: "('g, 'a) walk_vars" and e :: "('g, 'a) edge"
  assume a: "length (pending w1) \<le> length (pending (advance w e))"
  have b: "length (pending (advance w e)) \<le> length (pending w)"
    by (simp add: advance_def length_removeAll_less_eq)
  show "length (pending w1) \<le> length (pending w)" using a b by (rule order_trans)
qed simp

lemma finish_pending:
  "finish L print_err info nextNode1 w st = Inr st1 \<Longrightarrow> n2 st1 = pending w"
  by (auto simp: finish_def Let_def ebind_def split: if_splits sum.splits)

lemma attempt_pending:
  fixes L :: "('g, 's, 'd::linorder) geolib"
  assumes "attempt L network print_err nodeID st = Some (Inr st1)"
  shows "length (n2 st1) \<le> length (n2 st)"
proof (cases "first_edges L network (edg st) nodeID")
  case (Inl e)
  with assms show ?thesis by (simp add: attempt_def)
next
  case (Inr p)
  show ?thesis
  proof (cases p)
    case None
    with assms Inr show ?thesis by (simp add: attempt_def)
  next
    case (Some ee)
    obtain e1 e2 where ee: "ee = (e1, e2)" by (cases ee)
    show ?thesis
    proof (cases "other_end e1 nodeID = other_end e2 nodeID")
      case True
      with assms Inr Some ee show ?thesis by (simp add: attempt_def)
    next
      case False
      let ?w0 = "\<lparr>edgePath = e1, nextNode = other_end e1 nodeID, pos_0_deg = [nodeID],
                        pending = n2 st, newEdge = [geometry e1, geometry e2],
                        possibly_delete = [eid e2]\<rparr>"
      from assms Inr Some ee False obtain w1 w2 where
        w1: "walk L network (edg st) (deg st) (\<lambda>_. other_end e2 nodeID) ?w0 = Some (Inr w1)"
        and w2: "walk L network (edg st) (deg st) (\<lambda>n. n) (w1\<lparr>edgePath := e2, nextNode := other_end e2 nodeID\<rparr>) = Some (Inr w2)"
        and f: "finish L print_err (eid e1) (nextNode w1) w2 st = Inr st1"
        by (auto simp: attempt_def Let_def split: option.splits sum.splits)
      have "length (pending w2) \<le> length (pending (w1\<lparr>edgePath := e2, nextNode := other_end e2 nodeID\<rparr>))"
        by (rule walk_pending[OF w2])
      moreover have "length (pending w1) \<le> length (pending ?w0)" by (rule walk_pending[OF w1])
      ultimately show ?thesis using finish_pending[OF f] by simp
    qed
  qed
qed

text \<open>
  The loop \<open>while n2\<close>: \<open>pop\<close>, then one attempt.  An attempt that returns leaves
  a pending set no longer than the one after the \<open>pop\<close>, so the loop is defined by
  recursion on the length of the pending set.
\<close>

function merge_loop ::
  "('g, 's, 'd::linorder) geolib \<Rightarrow> ('g node, ('g, 'a) edge) network \<Rightarrow> bool \<Rightarrow> ('g, 'a) m2state \<Rightarrow>
     (error + ('g, 'a) m2state) option" where
  "merge_loop L network print_err st =
     (case n2 st of
        [] \<Rightarrow> Some (Inr st)
      | nodeID # rest \<Rightarrow>
         (case attempt L network print_err nodeID (st\<lparr>n2 := rest\<rparr>) of
            None \<Rightarrow> None
          | Some (Inl e) \<Rightarrow> Some (Inl e)
          | Some (Inr st1) \<Rightarrow> merge_loop L network print_err st1))"
  by pat_completeness auto
termination merge_loop
proof (relation "measure (\<lambda>(L, network, print_err, st). length (n2 st))", goal_cases)
  case 1 show ?case by simp
next
  case (2 L network print_err st nodeID rest r st1)
  from attempt_pending[OF 2(2)[unfolded 2(3)]] 2(1) show ?case by simp
qed

declare merge_loop.simps [simp del]

text \<open>
  \<open>merge_2\<close>.  The pending set holds the ids of the rows whose degree is 2.  After
  the loop the edges to remove are dropped, and the rows of \<open>nod\<close> with a positive
  \<open>degree\<close> are kept; \<open>nod.degree\<close> raises \<open>AttributeError\<close> when the table
  came without that column.
\<close>

definition merge_2 ::
  "('g, 's, 'd::linorder) geolib \<Rightarrow> bool \<Rightarrow> ('g node, ('g, 'a) edge) network \<Rightarrow>
     (error + (msg list \<times> ('g node, ('g, 'a) edge) network)) option" where
  "merge_2 L print_err network =
     (case (case degree network of
              None \<Rightarrow> calculate_degree network
            | Some d \<Rightarrow> Inr ([], d)) of
        Inl e \<Rightarrow> Some (Inl e)
      | Inr (out0, deg0) \<Rightarrow>
         (case emap (iloc (map nid (nodes network))) (filter (\<lambda>i. deg0 ! i = 2) [0 ..< length deg0]) of
            Inl e \<Rightarrow> Some (Inl e)
          | Inr ids \<Rightarrow>
             (case merge_loop L network print_err
                     \<lparr>edg = edges network, deg = deg0, n2 = remdups ids, eIDtoRemove = [],
                      out = out0\<rparr> of
                None \<Rightarrow> None
              | Some (Inl e) \<Rightarrow> Some (Inl e)
              | Some (Inr st) \<Rightarrow>
                 (case degree network of
                    None \<Rightarrow> Some (Inl AttributeError)
                  | Some _ \<Rightarrow>
                     (let keep = filter (\<lambda>(n, d). d > 0) (zip (nodes network) (deg st))
                      in Some (Inr (out st,
                           \<lparr>nodes = map fst keep, degree = Some (map snd keep),
                            edges = filter (\<lambda>e. eid e \<notin> set (eIDtoRemove st)) (edg st)\<rparr>)))))))"


section \<open>Id and table manager\<close>

text \<open>
  \<open>reset_ids\<close>: the dictionary from the old node ids to the row positions, the loop
  over its items that rewrites both reference arrays under masks taken on the old
  arrays, then the new id columns.
\<close>

definition reset_ids :: "('g node, ('g, 'a) edge) network \<Rightarrow> ('g node, ('g, 'a) edge) network" where
  "reset_ids network =
     (let nds = nodes network;
          eds = edges network;
          to_ids = map to_id eds;
          from_ids = map from_id eds;
          new_node_ids = map int [0 ..< length nds];
          id_dict = py_dict (zip (map nid nds) new_node_ids);
          (nt, nf) = fold (\<lambda>(k, v) (nt, nf). (mask_assign to_ids k v nt, mask_assign from_ids k v nf))
                       id_dict (to_ids, from_ids)
      in \<lparr>nodes = map (\<lambda>(n, i). n\<lparr>nid := i\<rparr>) (zip nds new_node_ids),
          degree = degree network,
          edges = map (\<lambda>(e, i, f, t). e\<lparr>from_id := f, to_id := t, eid := i\<rparr>)
                    (zip eds (zip (map int [0 ..< length eds]) (zip nf nt)))\<rparr>)"

section \<open>Geometry utilities\<close>

text \<open>
  A line is the sequence of its coordinate tuples (\<open>line.coords\<close>), a point is its
  coordinate tuple (\<open>point.coords[0]\<close>); \<open>vdist p c\<close> is the distance from the point to
  the vertex \<open>c\<close> and \<open>seg_dist p a b\<close> the distance from the point to the segment
  from \<open>a\<close> to \<open>b\<close>.
\<close>

definition nearest_vertex_idx_on_line ::
  "('c \<Rightarrow> 'c \<Rightarrow> 'd::linorder) \<Rightarrow> 'c \<Rightarrow> 'c list \<Rightarrow> error + nat" where
  "nearest_vertex_idx_on_line vdist point line =
     ebind (py_min_by snd (map (\<lambda>(idx, coords). (idx, vdist point coords)) (enumerate 0 line)))
       (\<lambda>(nearest_idx, _). Inr nearest_idx)"

text \<open>\<open>list.insert(i, x)\<close> for a position \<open>i\<close> that is not negative.\<close>

definition py_insert :: "nat \<Rightarrow> 'x \<Rightarrow> 'x list \<Rightarrow> 'x list" where
  "py_insert i x xs = take i xs @ [x] @ drop i xs"

definition add_vertex ::
  "('c \<Rightarrow> 'c \<Rightarrow> 'd::linorder) \<Rightarrow> ('c \<Rightarrow> 'c \<Rightarrow> 'c \<Rightarrow> 'd) \<Rightarrow> 'c list \<Rightarrow> 'c \<Rightarrow> error + 'c list" where
  "add_vertex vdist seg_dist line point =
     ebind (nearest_vertex_idx_on_line vdist point line) (\<lambda>v_idx.
       if point = line ! v_idx then Inr line
       else
         (let insert_before_idx =
                (if v_idx = 0 then 1
                 else if v_idx = length line - 1 then v_idx
                 else if seg_dist point (line ! v_idx) (line ! (v_idx - 1))
                           < seg_dist point (line ! v_idx) (line ! (v_idx + 1))
                      then v_idx
                      else v_idx + 1)
          in Inr (py_insert insert_before_idx point line)))"

section \<open>Roundabout collapser\<close>

text \<open>
  A row of the raw edge table: the columns that \<open>clean_roundabouts\<close> reads and writes.
\<close>

record ('g, 'k) way =
  osm_id :: 'k
  highway :: string
  wgeometry :: 'g

text \<open>\<open>find_roundabouts\<close>: the rows whose geometry is a ring, with their positions.\<close>

definition find_roundabouts ::
  "('g, 's, 'd) geolib \<Rightarrow> ('n, ('g, 'k) way) network \<Rightarrow> (nat \<times> ('g, 'k) way) list" where
  "find_roundabouts L network =
     filter (\<lambda>(i, edge). is_ring L (wgeometry edge)) (enumerate 0 (edges network))"

text \<open>
  The new line of an edge geometry \<open>g\<close> for the centroid \<open>c\<close>: the coordinates of the
  centroid go in front when the first vertex is strictly closer to the centroid than the
  last one, and behind otherwise.
\<close>

definition snap_to_centroid :: "('g, 's, 'd::linorder) geolib \<Rightarrow> 'g \<Rightarrow> 'g \<Rightarrow> 'g" where
  "snap_to_centroid L round_centroid g =
     (let start = get_point L g 0;
          end = get_point L g (- 1);
          first_co_is_closer = (distance L end round_centroid > distance L start round_centroid);
          co_ords = get_coordinates L g;
          centroid_co = get_coordinates L round_centroid
      in linestrings L (if first_co_is_closer then centroid_co @ co_ords else co_ords @ centroid_co))"

text \<open>
  The position of the first entry of \<open>new_edge\<close> with a given \<open>osm_id\<close>; the source
  leaves \<open>a = []\<close> when there is none, and \<open>new_edge.pop([])\<close> raises \<open>TypeError\<close>.
\<close>

fun first_with_id :: "'k \<Rightarrow> ('g, 'k) way list \<Rightarrow> nat option" where
  "first_with_id k [] = None"
| "first_with_id k (x # xs) =
     (if osm_id x = k then Some 0 else map_option Suc (first_with_id k xs))"

text \<open>
  The body of the inner loop for the edge at position \<open>i\<close> that meets the roundabout:
  the loop variables are \<open>new_edge\<close>, \<open>new_edge_id\<close> and \<open>remove_edge\<close>.
\<close>

definition reroute_edge ::
  "('g, 's, 'd::linorder) geolib \<Rightarrow> 'g \<Rightarrow> ('g, 'k) way list \<Rightarrow> nat \<Rightarrow>
     ('g, 'k) way list \<times> 'k list \<times> nat list \<Rightarrow> error + (('g, 'k) way list \<times> 'k list \<times> nat list)" where
  "reroute_edge L round_centroid rows i = (\<lambda>(new_edge, new_edge_id, remove_edge).
     ebind (iloc rows i) (\<lambda>edge.
       (let snap_line = snap_to_centroid L round_centroid (wgeometry edge)
        in if osm_id edge \<in> set new_edge_id
           then (case first_with_id (osm_id edge) new_edge of
                   None \<Rightarrow> Inl TypeError
                 | Some a \<Rightarrow>
                    (let double_edge = new_edge ! a;
                         snap_line2 = snap_to_centroid L round_centroid (wgeometry double_edge)
                     in Inr (take a new_edge @ drop (Suc a) new_edge
                               @ [\<lparr>osm_id = osm_id edge, highway = highway edge, wgeometry = snap_line2\<rparr>],
                             new_edge_id, remove_edge @ [i])))
           else Inr (new_edge @ [\<lparr>osm_id = osm_id edge, highway = highway edge, wgeometry = snap_line\<rparr>],
                     new_edge_id @ [osm_id edge], remove_edge @ [i]))))"

text \<open>
  The body of the outer loop for one roundabout: its index goes to \<open>remove_edge\<close>, it
  is dropped from the edges that meet it (\<open>drop\<close> raises \<open>KeyError\<close> when it is not
  among them), and the others are rerouted.
\<close>

definition collapse_roundabout ::
  "('g, 's, 'd::linorder) geolib \<Rightarrow> ('g, 'k) way list \<Rightarrow> nat \<times> ('g, 'k) way \<Rightarrow>
     ('g, 'k) way list \<times> 'k list \<times> nat list \<Rightarrow> error + (('g, 'k) way list \<times> 'k list \<times> nat list)" where
  "collapse_roundabout L rows = (\<lambda>(index, roundabout) (new_edge, new_edge_id, remove_edge).
     (let round_centroid = centroid L (wgeometry roundabout);
          edges_intersect = buffer_query L (map wgeometry rows) (wgeometry roundabout)
      in if index \<in> set edges_intersect
         then efold (reroute_edge L round_centroid rows) (filter (\<lambda>i. i \<noteq> index) edges_intersect)
                (new_edge, new_edge_id, remove_edge @ [index])
         else Inl KeyError))"

text \<open>
  \<open>clean_roundabouts\<close>: the rows that are not removed, followed by the new rows.
\<close>

definition clean_roundabouts ::
  "('g, 's, 'd::linorder) geolib \<Rightarrow> ('n, ('g, 'k) way) network \<Rightarrow> error + ('n, ('g, 'k) way) network" where
  "clean_roundabouts L network =
     ebind (efold (collapse_roundabout L (edges network)) (find_roundabouts L network) ([], [], []))
       (\<lambda>(new_edge, new_edge_id, remove_edge).
          Inr \<lparr>nodes = nodes network, degree = degree network,
               edges = map snd (filter (\<lambda>(i, edge). i \<notin> set remove_edge) (enumerate 0 (edges network)))
                       @ new_edge\<rparr>)"

section \<open>Edge splitter\<close>

text \<open>
  \<open>split_edges_at_nodes_pyg\<close> for one edge.  \<open>numpy.isin\<close> compares single coordinate
  values: a vertex of the edge is a split location when each of its two values occurs
  among the values of the split points.  Every two consecutive split locations give
  one new edge with the vertices from the one to the other.
\<close>

definition split_locs :: "('s \<times> 's) list \<Rightarrow> ('s \<times> 's) list \<Rightarrow> nat list" where
  "split_locs coor_geom split_pts =
     (let vals = map fst split_pts @ map snd split_pts
      in filter (\<lambda>i. fst (coor_geom ! i) \<in> set vals \<and> snd (coor_geom ! i) \<in> set vals)
           [0 ..< length coor_geom])"

definition split_edge ::
  "('g, 's, 'd) geolib \<Rightarrow> 'g list \<Rightarrow> ('g, 'k) way \<Rightarrow> ('g, 'k) way list" where
  "split_edge L geoms edge =
     (let hits_edges = map (\<lambda>i. geoms ! i) (buffer_query L geoms (wgeometry edge));
          pts = split_points L (wgeometry edge) hits_edges;
          coor_geom = get_coordinates L (wgeometry edge);
          locs = split_locs coor_geom pts;
          new_edges = map (\<lambda>(a, b). take (b + 1 - a) (drop a coor_geom)) (zip locs (tl locs))
      in map (\<lambda>cs. \<lparr>osm_id = osm_id edge, highway = highway edge, wgeometry = linestrings L cs\<rparr>)
           new_edges)"

definition split_edges_at_nodes_pyg ::
  "('g, 's, 'd) geolib \<Rightarrow> ('n, ('g, 'k) way) network \<Rightarrow> ('n, ('g, 'k) way) network" where
  "split_edges_at_nodes_pyg L network =
     \<lparr>nodes = nodes network, degree = degree network,
      edges = concat (map (split_edge L (map wgeometry (edges network))) (edges network))\<rparr>"

section \<open>Endpoints and ids\<close>

text \<open>
  \<open>get_endpoints\<close>: the first and the last vertex of every edge whose geometry is not
  \<open>None\<close>.  (The test for a \<open>MultiLineString\<close> compares the integer type id with the
  string \<open>'5'\<close> and is never true, so every geometry takes the second branch.)
\<close>

definition get_endpoints :: "('g, 's, 'd) geolib \<Rightarrow> ('n, ('g, 'k) way) network \<Rightarrow> 'g list" where
  "get_endpoints L network =
     concat (map (\<lambda>edge. if is_missing L (wgeometry edge) then []
                          else (let (start, end) = line_endpoints L (wgeometry edge) in [start, end]))
               (edges network))"

text \<open>\<open>drop_duplicate_geometries\<close> keeps the first row of every geometry.\<close>

definition drop_duplicate_geometries :: "'g list \<Rightarrow> 'g list" where
  "drop_duplicate_geometries gs = rev (remdups (rev gs))"

text \<open>
  \<open>add_endpoints\<close>; a row of the node table before \<open>add_ids\<close> is its geometry.  The
  table that \<open>concat_dedup\<close> builds has no \<open>degree\<close> column of its own rows.
\<close>

definition add_endpoints ::
  "('g, 's, 'd) geolib \<Rightarrow> ('g, ('g, 'k) way) network \<Rightarrow> ('g, ('g, 'k) way) network" where
  "add_endpoints L network =
     \<lparr>nodes = drop_duplicate_geometries (nodes network @ get_endpoints L network),
      degree = None,
      edges = edges network\<rparr>"

text \<open>\<open>add_ids\<close>: both tables get the ids \<open>0..n-1\<close> in row order.\<close>

definition add_ids ::
  "('g, ('g, 'k) way) network \<Rightarrow> ('g node, ('g, 'k \<times> string) idrow) network" where
  "add_ids network =
     \<lparr>nodes = map (\<lambda>(i, g). \<lparr>nid = int i, ngeometry = g\<rparr>) (enumerate 0 (nodes network)),
      degree = degree network,
      edges = map (\<lambda>(i, edge). \<lparr>rid = int i, rgeometry = wgeometry edge,
                                 rattrs = (osm_id edge, highway edge)\<rparr>)
                (enumerate 0 (edges network))\<rparr>"

section \<open>Attribute enrichment and checks\<close>

text \<open>
  \<open>add_distances\<close> reads the position of the first node (\<open>iloc[0]\<close> raises
  \<open>IndexError\<close> on an empty node table) and sets the \<open>distance\<close> column of every
  edge; \<open>set_distance\<close> says how the column is set in the attributes of a row.
\<close>

definition add_distances ::
  "('g, 's, 'd) geolib \<Rightarrow> ('a \<Rightarrow> 'd \<Rightarrow> 'b) \<Rightarrow> ('g node, ('g, 'a) edge) network \<Rightarrow>
     error + ('g node, ('g, 'b) edge) network" where
  "add_distances L set_distance network =
     ebind (iloc (nodes network) 0) (\<lambda>first.
       Inr \<lparr>nodes = nodes network, degree = degree network,
            edges = map (\<lambda>e. \<lparr>eid = eid e, geometry = geometry e, from_id = from_id e,
                               to_id = to_id e,
                               attrs = set_distance (attrs e)
                                         (projected_length L (ngeometry first) (geometry e))\<rparr>)
                      (edges network)\<rparr>)"

text \<open>
  \<open>merge_all_multi\<close> applies \<open>line_merge\<close> to every geometry, and \<open>line_merge\<close>
  returns its argument unless \<open>get_type_id(x) == '5'\<close>; the type id is an integer and
  never equals the string, so every geometry stays as it is.
\<close>

definition merge_all_multi :: "('n, ('g, 'a) edge) network \<Rightarrow> ('n, ('g, 'a) edge) network" where
  "merge_all_multi network =
     \<lparr>nodes = nodes network, degree = degree network,
      edges = map (\<lambda>e. e\<lparr>geometry := geometry e\<rparr>) (edges network)\<rparr>"

text \<open>
  \<open>logicCheck\<close> only prints.  It raises when a \<open>max\<close> is taken of an empty column,
  and \<open>KeyError\<close> without a \<open>degree\<close> column.  An exception of
  \<open>calculate_degree\<close> is caught; the line that \<open>calculate_degree\<close> may have printed
  before it stays.  \<open>Geopackage\<close> is not imported, so the last \<open>try\<close> always ends in
  its handler.
\<close>

definition logicCheck :: "('g node, ('g, 'a) edge) network \<Rightarrow> error + msg list" where
  "logicCheck net =
     (let fs = map from_id (edges net); ts = map to_id (edges net); ids = map nid (nodes net)
      in ebind (py_max fs) (\<lambda>mf.
         ebind (py_max ids) (\<lambda>mn.
         ebind (if mf > mn then Inr True else ebind (py_max ts) (\<lambda>mt. Inr (mt > mn))) (\<lambda>bad.
         ebind (if bad
                then ebind (py_max ts) (\<lambda>mt.
                       Inr [From_or_to_id_out_of_index, Max_node_id mn, Max_from_id mf, Max_to_id mt])
                else Inr []) (\<lambda>out1.
           (case degree net of
              None \<Rightarrow> Inl KeyError
            | Some cur_deg \<Rightarrow>
               (let (out2, cal_deg) =
                      (case calculate_degree net of
                         Inr (ms, d) \<Rightarrow> (ms, Some d)
                       | Inl _ \<Rightarrow>
                          ((case degree_guard net of
                              Inr True \<Rightarrow> [Calculate_degree_unhappy]
                            | _ \<Rightarrow> []) @ [Degree_not_calculated], None));
                    out3 = (if cal_deg = Some cur_deg then [] else [Degree_mismatch])
                in Inr (out1 @ out2 @ out3 @ [Eh]))))))))"

text \<open>
  \<open>quickFix\<close> removes the edges that are not one geometry and the edges with a
  reference above the largest node id, and numbers the rest \<open>0..n-1\<close>.
\<close>

definition quickFix_step ::
  "('g, 's, 'd) geolib \<Rightarrow> int list \<Rightarrow> ('g, 'a) edge \<Rightarrow> msg list \<times> int list \<Rightarrow>
     error + (msg list \<times> int list)" where
  "quickFix_step L ids edge = (\<lambda>(out0, rem).
     (let (out1, rem1) =
            (if get_num_geometries L (geometry edge) \<noteq> 1
             then (out0 @ [Multiple_geometries (eid edge)], rem @ [eid edge])
             else (out0, rem))
      in ebind (py_max ids) (\<lambda>mn.
           if from_id edge > mn \<or> to_id edge > mn then Inr (out1, rem1 @ [eid edge])
           else Inr (out1, rem1))))"

definition quickFix ::
  "('g, 's, 'd) geolib \<Rightarrow> ('g node, ('g, 'a) edge) network \<Rightarrow>
     error + (msg list \<times> ('g node, ('g, 'a) edge) network)" where
  "quickFix L net =
     ebind (efold (quickFix_step L (map nid (nodes net))) (edges net) ([], [])) (\<lambda>(out1, rem).
       (let es = filter (\<lambda>e. eid e \<notin> set rem) (edges net)
        in Inr (out1,
                \<lparr>nodes = nodes net, degree = degree net,
                 edges = map (\<lambda>(e, i). e\<lparr>eid := i\<rparr>) (zip es (map int [0 ..< length es]))\<rparr>)))"

text \<open>
  \<open>add_travel_time\<close>: the node table never has a \<open>distance\<close> column, so the distances
  are computed again; the time of an edge is its distance by the speed of its
  \<open>highway\<close> class, and a class that is not in the table gives \<open>None\<close> and a
  \<open>TypeError\<close> in the division.  (On an edge table without rows \<open>apply\<close>
  calls the function on no row; the result here is the network without edges.)
\<close>

definition speed_d :: "(string \<times> int) list" where
  "speed_d =
     [(''motorway'', 80000), (''motorway_link'', 65000), (''trunk'', 60000), (''trunk_link'', 50000),
      (''primary'', 50000), (''primary_link'', 40000), (''secondary'', 40000),
      (''secondary_link'', 30000), (''tertiary'', 30000), (''tertiary_link'', 20000),
      (''unclassified'', 20000), (''residential'', 20000)]"

definition calculate_time ::
  "('g, 's, 'd) geolib \<Rightarrow> ('g, ('k \<times> string) \<times> 'd) edge \<Rightarrow>
     error + ('g, (('k \<times> string) \<times> 'd) \<times> 'd) edge" where
  "calculate_time L edge =
     (case map_of speed_d (snd (fst (attrs edge))) of
        None \<Rightarrow> Inl TypeError
      | Some v \<Rightarrow>
         Inr \<lparr>eid = eid edge, geometry = geometry edge, from_id = from_id edge, to_id = to_id edge,
              attrs = (attrs edge, per_speed L (snd (attrs edge)) v)\<rparr>)"

definition add_travel_time ::
  "('g, 's, 'd) geolib \<Rightarrow> ('g node, ('g, ('k \<times> string) \<times> 'd) edge) network \<Rightarrow>
     error + ('g node, ('g, (('k \<times> string) \<times> 'd) \<times> 'd) edge) network" where
  "add_travel_time L network =
     ebind (add_distances L (\<lambda>a d. (fst a, d)) network) (\<lambda>network1.
     ebind (emap (calculate_time L) (edges network1)) (\<lambda>es.
       Inr \<lparr>nodes = nodes network1, degree = degree network1, edges = es\<rparr>))"

section \<open>Pipeline\<close>

text \<open>
  \<open>simplify_network_from_gdf\<close>: the stages in the order of the source.  The value is
  \<open>None\<close> when \<open>merge_2\<close> does not return, an exception when a stage raises, and
  otherwise the lines printed and the final network.
\<close>

definition simplify_network_from_gdf ::
  "('g, 's, 'd::linorder) geolib \<Rightarrow> ('g, 'k) way list \<Rightarrow>
     (error + (msg list \<times> ('g node, ('g, (('k \<times> string) \<times> 'd) \<times> 'd) edge) network)) option" where
  "simplify_network_from_gdf L gdf =
     (case clean_roundabouts L \<lparr>nodes = [], degree = None, edges = gdf\<rparr> of
        Inl e \<Rightarrow> Some (Inl e)
      | Inr net1 \<Rightarrow>
         (let net2 = split_edges_at_nodes_pyg L net1;
              net3 = add_endpoints L net2;
              net4 = add_ids net3;
              (out1, net5) = add_topology L net4
          in case drop_hanging_nodes L (tolerance_default L) net5 of
               Inl e \<Rightarrow> Some (Inl e)
             | Inr (out2, net6) \<Rightarrow>
                (case merge_2 L False net6 of
                   None \<Rightarrow> None
                 | Some (Inl e) \<Rightarrow> Some (Inl e)
                 | Some (Inr (out3, net7)) \<Rightarrow>
                    Some (ebind (add_distances L Pair (reset_ids net7)) (\<lambda>net9.
                          ebind (logicCheck (merge_all_multi net9)) (\<lambda>out4.
                          ebind (quickFix L (merge_all_multi net9)) (\<lambda>(out5, net11).
                          ebind (add_travel_time L net11) (\<lambda>net12.
                            Inr (out1 @ out2 @ out3 @ out4 @ out5, net12)))))))))"

section \<open>A geometry library on the integer grid\<close>

text \<open>
  The examples below run the stages on small concrete networks.  Their geometries have
  integer coordinates, and the library calls are computed exactly: squared Euclidean
  distances (which order as the distances do) stand for the distances.  \<open>NoGeom\<close> is
  the \<open>None\<close> that the library returns where a geometry has no such part.
\<close>

type_synonym coord = "int \<times> int"

datatype grid_geom = NoGeom | Point coord | LineString "coord list" | MultiLineString "coord list list"

definition sq_dist :: "coord \<Rightarrow> coord \<Rightarrow> rat" where
  "sq_dist p q = of_int ((fst p - fst q) * (fst p - fst q) + (snd p - snd q) * (snd p - snd q))"

text \<open>The squared distance from \<open>p\<close> to the segment from \<open>a\<close> to \<open>b\<close>.\<close>

definition seg_sq_dist :: "coord \<Rightarrow> coord \<Rightarrow> coord \<Rightarrow> rat" where
  "seg_sq_dist p a b =
     (let dx = of_int (fst b - fst a) :: rat; dy = of_int (snd b - snd a) :: rat;
          ex = of_int (fst p - fst a) :: rat; ey = of_int (snd p - snd a) :: rat;
          l2 = dx * dx + dy * dy
      in if l2 = 0 then ex * ex + ey * ey
         else (let t = max 0 (min 1 ((ex * dx + ey * dy) / l2))
               in (ex - t * dx) * (ex - t * dx) + (ey - t * dy) * (ey - t * dy)))"

fun line_segs :: "coord list \<Rightarrow> (coord \<times> coord) list" where
  "line_segs [] = []"
| "line_segs [p] = [(p, p)]"
| "line_segs (p # q # r) = (p, q) # (if r = [] then [] else line_segs (q # r))"

fun coords_of :: "grid_geom \<Rightarrow> coord list" where
  "coords_of NoGeom = []"
| "coords_of (Point p) = [p]"
| "coords_of (LineString cs) = cs"
| "coords_of (MultiLineString ls) = concat ls"

fun segments :: "grid_geom \<Rightarrow> (coord \<times> coord) list" where
  "segments NoGeom = []"
| "segments (Point p) = [(p, p)]"
| "segments (LineString cs) = line_segs cs"
| "segments (MultiLineString ls) = concat (map line_segs ls)"

text \<open>Two bounding boxes meet; a geometry without coordinates has no box.\<close>

definition boxes_meet :: "coord list \<Rightarrow> coord list \<Rightarrow> bool" where
  "boxes_meet a b =
     (a \<noteq> [] \<and> b \<noteq> [] \<and>
      Min (set (map fst a)) \<le> Max (set (map fst b)) \<and> Min (set (map fst b)) \<le> Max (set (map fst a)) \<and>
      Min (set (map snd a)) \<le> Max (set (map snd b)) \<and> Min (set (map snd b)) \<le> Max (set (map snd a)))"

text \<open>
  Two segments (a point is a segment of length zero) have a common point: the test by
  orientations, with the collinear cases.
\<close>

definition orient :: "coord \<Rightarrow> coord \<Rightarrow> coord \<Rightarrow> int" where
  "orient a b c = sgn ((fst b - fst a) * (snd c - snd a) - (snd b - snd a) * (fst c - fst a))"

definition on_seg :: "coord \<Rightarrow> coord \<Rightarrow> coord \<Rightarrow> bool" where
  "on_seg a b c =
     (min (fst a) (fst b) \<le> fst c \<and> fst c \<le> max (fst a) (fst b) \<and>
      min (snd a) (snd b) \<le> snd c \<and> snd c \<le> max (snd a) (snd b))"

definition segs_meet :: "coord \<times> coord \<Rightarrow> coord \<times> coord \<Rightarrow> bool" where
  "segs_meet s1 s2 =
     (let p1 = fst s1; q1 = snd s1; p2 = fst s2; q2 = snd s2;
          o1 = orient p1 q1 p2; o2 = orient p1 q1 q2;
          o3 = orient p2 q2 p1; o4 = orient p2 q2 q1
      in (o1 \<noteq> o2 \<and> o3 \<noteq> o4) \<or> (o1 = 0 \<and> on_seg p1 q1 p2) \<or> (o2 = 0 \<and> on_seg p1 q1 q2)
         \<or> (o3 = 0 \<and> on_seg p2 q2 p1) \<or> (o4 = 0 \<and> on_seg p2 q2 q1))"

definition grid_intersects :: "grid_geom \<Rightarrow> grid_geom \<Rightarrow> bool" where
  "grid_intersects a b = list_ex (\<lambda>sa. list_ex (segs_meet sa) (segments b)) (segments a)"

text \<open>
  The squared distance of two geometries: zero when they meet, else the least squared
  distance from a vertex of one to a segment of the other.
\<close>

definition grid_distance :: "grid_geom \<Rightarrow> grid_geom \<Rightarrow> rat" where
  "grid_distance a b =
     (if grid_intersects a b then 0
      else (case concat (map (\<lambda>p. map (\<lambda>(u, v). seg_sq_dist p u v) (segments b)) (coords_of a))
               @ concat (map (\<lambda>p. map (\<lambda>(u, v). seg_sq_dist p u v) (segments a)) (coords_of b)) of
              [] \<Rightarrow> 0
            | d # ds \<Rightarrow> fold min ds d))"

text \<open>The length of a line whose segments are parallel to the axes, as in the examples.\<close>

definition grid_length :: "grid_geom \<Rightarrow> rat" where
  "grid_length g =
     of_int (sum_list (map (\<lambda>(u, v). \<bar>fst v - fst u\<bar> + \<bar>snd v - snd u\<bar>) (segments g)))"

fun grid_get_point :: "grid_geom \<Rightarrow> int \<Rightarrow> grid_geom" where
  "grid_get_point (LineString cs) i =
     (if 0 \<le> i \<and> i < int (length cs) then Point (cs ! nat i)
      else if - int (length cs) \<le> i \<and> i < 0 then Point (cs ! nat (int (length cs) + i))
      else NoGeom)"
| "grid_get_point _ i = NoGeom"

fun grid_get_type_id :: "grid_geom \<Rightarrow> int" where
  "grid_get_type_id NoGeom = - 1"
| "grid_get_type_id (Point _) = 0"
| "grid_get_type_id (LineString _) = 1"
| "grid_get_type_id (MultiLineString _) = 5"

text \<open>
  Merging lines: the merger joins lines only through end points at which exactly two
  line ends meet.  A chain takes up, one after the other, a line that shares an end with
  it (turned round where needed).  The result is one \<open>LineString\<close> when no point
  is the end of more than two line ends and every line was taken up, and a
  \<open>MultiLineString\<close> otherwise; the stages read only the type of a
  \<open>MultiLineString\<close>, whose parts are here not merged further.
\<close>

definition line_ends :: "coord list list \<Rightarrow> coord list" where
  "line_ends ls = concat (map (\<lambda>l. if l = [] then [] else [hd l, last l]) ls)"

definition ends_simple :: "coord list list \<Rightarrow> bool" where
  "ends_simple ls = list_all (\<lambda>p. count_list (line_ends ls) p \<le> 2) (line_ends ls)"

definition attach :: "coord list \<Rightarrow> coord list \<Rightarrow> coord list option" where
  "attach c l =
     (if c = [] \<or> l = [] then None
      else if last c = hd l then Some (c @ tl l)
      else if last c = last l then Some (c @ tl (rev l))
      else if hd c = last l then Some (l @ tl c)
      else if hd c = hd l then Some (rev l @ tl c)
      else None)"

fun take_first :: "coord list \<Rightarrow> coord list list \<Rightarrow> (coord list \<times> coord list list) option" where
  "take_first c [] = None"
| "take_first c (l # ls) =
     (case attach c l of
        Some c1 \<Rightarrow> Some (c1, ls)
      | None \<Rightarrow> map_option (\<lambda>(c1, ls1). (c1, l # ls1)) (take_first c ls))"

fun merge_chain :: "nat \<Rightarrow> coord list \<Rightarrow> coord list list \<Rightarrow> coord list \<times> coord list list" where
  "merge_chain 0 c rest = (c, rest)"
| "merge_chain (Suc n) c rest =
     (case take_first c rest of
        None \<Rightarrow> (c, rest)
      | Some (c1, rest1) \<Rightarrow> merge_chain n c1 rest1)"

definition grid_line_merge_multi :: "grid_geom list \<Rightarrow> grid_geom" where
  "grid_line_merge_multi gs =
     (case map coords_of gs of
        [] \<Rightarrow> MultiLineString []
      | l # ls \<Rightarrow>
         (case merge_chain (length ls) l ls of
            (c, []) \<Rightarrow> if ends_simple (l # ls) then LineString c else MultiLineString (l # ls)
          | (c, r # rest) \<Rightarrow> MultiLineString (c # r # rest)))"

text \<open>
  A line is a ring when it is closed and no vertex but the first comes twice (enough for
  the rings of the examples, whose segments do not cross).  The centroid of a line is
  the mean of the midpoints of its segments, weighted by their lengths; it is computed
  for lines with segments parallel to the axes and rounded down to the grid (the
  centroids of the examples are grid points).
\<close>

fun grid_is_ring :: "grid_geom \<Rightarrow> bool" where
  "grid_is_ring (LineString cs) = (4 \<le> length cs \<and> hd cs = last cs \<and> distinct (butlast cs))"
| "grid_is_ring _ = False"

definition grid_centroid :: "grid_geom \<Rightarrow> grid_geom" where
  "grid_centroid g =
     (let ss = segments g;
          w = (\<lambda>(u, v). \<bar>fst v - fst u\<bar> + \<bar>snd v - snd u\<bar>);
          total = sum_list (map w ss)
      in if total = 0 then (case coords_of g of [] \<Rightarrow> NoGeom | p # _ \<Rightarrow> Point p)
         else Point (sum_list (map (\<lambda>(u, v). w (u, v) * (fst u + fst v)) ss) div (2 * total),
                     sum_list (map (\<lambda>(u, v). w (u, v) * (snd u + snd v)) ss) div (2 * total)))"

fun grid_get_num_geometries :: "grid_geom \<Rightarrow> nat" where
  "grid_get_num_geometries NoGeom = 0"
| "grid_get_num_geometries (MultiLineString ls) = length ls"
| "grid_get_num_geometries _ = 1"

text \<open>
  The split points of an edge, for edges that meet the others at vertices only, as those
  of the examples do: the vertices of the edge that lie on another geometry of the hits,
  and the vertices of the other geometries that lie on the edge.  A hit covers the edge
  when it is the same geometry.
\<close>

definition grid_split_points :: "grid_geom \<Rightarrow> grid_geom list \<Rightarrow> coord list" where
  "grid_split_points g hs =
     concat (map (\<lambda>h. filter (\<lambda>p. grid_intersects (Point p) h) (coords_of g)
                       @ filter (\<lambda>p. grid_intersects (Point p) g) (coords_of h))
               (filter (\<lambda>h. h \<noteq> g) hs))"

text \<open>
  The order of the hits of a query.  The packed tree sorts the geometries by the centre
  of their bounding boxes, first along x, then, inside a vertical slice, along y, and a
  query lists its hits in the order of the leaves.  The trees of the examples hold at
  most four geometries, which make one leaf and one slice, so the hits come by the y of
  the centre, then by the x, then by position.  \<open>box_centre2\<close> is twice the centre.  The Python set that
  \<open>merge_2\<close> builds from the hits of \<open>tree_intersects\<close> iterates small
  positions in ascending order.
\<close>

definition box_centre2 :: "grid_geom \<Rightarrow> int \<times> int" where
  "box_centre2 g =
     (case coords_of g of
        [] \<Rightarrow> (0, 0)
      | p # ps \<Rightarrow> (fold min (map fst ps) (fst p) + fold max (map fst ps) (fst p),
                   fold min (map snd ps) (snd p) + fold max (map snd ps) (snd p)))"

definition tree_order :: "grid_geom list \<Rightarrow> nat list" where
  "tree_order gs =
     sort_key (\<lambda>i. snd (box_centre2 (gs ! i)))
       (sort_key (\<lambda>i. fst (box_centre2 (gs ! i)))
          (filter (\<lambda>i. coords_of (gs ! i) \<noteq> []) [0 ..< length gs]))"

text \<open>
  The grid has no geographic projection: the length of a line on the grid stands for
  its projected length, so the distances and times of the examples are in grid units.
\<close>

definition grid_lib :: "(grid_geom, int, rat) geolib" where
  "grid_lib =
     \<lparr>tree_query = (\<lambda>gs g. filter (\<lambda>i. boxes_meet (coords_of (gs ! i)) (coords_of g)) (tree_order gs)),
      tree_intersects = (\<lambda>gs g. filter (\<lambda>i. grid_intersects g (gs ! i)) [0 ..< length gs]),
      buffer_query = (\<lambda>gs g. filter (\<lambda>i. grid_intersects g (gs ! i)) (tree_order gs)),
      distance = grid_distance,
      glength = grid_length,
      get_point = grid_get_point,
      get_coordinates = coords_of,
      linestrings = LineString,
      line_merge_multi = grid_line_merge_multi,
      get_type_id = grid_get_type_id,
      get_num_geometries = grid_get_num_geometries,
      is_ring = grid_is_ring,
      centroid = grid_centroid,
      is_missing = (\<lambda>g. g = NoGeom),
      split_points = grid_split_points,
      projected_length = (\<lambda>n g. grid_length g),
      per_speed = (\<lambda>d v. d / of_int v),
      tolerance_default = 5 / 1000\<rparr>"

section \<open>Example networks\<close>

text \<open>Two nodes with sparse ids, and one edge from the second to the first.\<close>

definition net_sparse :: "(grid_geom node, (grid_geom, string) edge) network" where
  "net_sparse =
     \<lparr>nodes = [\<lparr>nid = 5, ngeometry = Point (0, 0)\<rparr>, \<lparr>nid = 9, ngeometry = Point (3, 0)\<rparr>],
      degree = Some [1, 1],
      edges = [\<lparr>eid = 7, geometry = LineString [(3, 0), (0, 0)], from_id = 9, to_id = 5,
                attrs = ''road''\<rparr>]\<rparr>"


text \<open>
  A short segment on its own: two nodes of degree 1 and the edge between them, of
  length 1.
\<close>

definition net_stub :: "(grid_geom node, (grid_geom, string) edge) network" where
  "net_stub =
     \<lparr>nodes = [\<lparr>nid = 0, ngeometry = Point (0, 0)\<rparr>, \<lparr>nid = 1, ngeometry = Point (1, 0)\<rparr>],
      degree = None,
      edges = [\<lparr>eid = 0, geometry = LineString [(0, 0), (1, 0)], from_id = 0, to_id = 1,
                attrs = ''road''\<rparr>]\<rparr>"

text \<open>One node at the origin and one edge that comes nowhere near it.\<close>

definition net_far :: "(grid_geom node, (grid_geom, string) idrow) network" where
  "net_far =
     \<lparr>nodes = [\<lparr>nid = 0, ngeometry = Point (0, 0)\<rparr>],
      degree = None,
      edges = [\<lparr>rid = 0, rgeometry = LineString [(5, 5), (6, 5)], rattrs = ''road''\<rparr>]\<rparr>"

text \<open>A line of three vertices on the x axis, and a point between the last two.\<close>

definition line3 :: "coord list" where
  "line3 = [(0, 0), (4, 0), (8, 0)]"

definition pt5 :: coord where
  "pt5 = (5, 0)"

section \<open>Notions used to state the properties\<close>

text \<open>
  The two lookups that \<open>add_topology\<close> makes for an edge, and the edges for which one
  of them raises.
\<close>

definition resolve_start ::
  "('g, 's, 'd::linorder) geolib \<Rightarrow> ('g node, ('g, 'a) idrow) network \<Rightarrow> ('g, 'a) idrow \<Rightarrow> error + 'g node" where
  "resolve_start L network e =
     nearest_node L (fst (line_endpoints L (rgeometry e))) (nodes network)
       (tree_query L (map ngeometry (nodes network)))"

definition resolve_end ::
  "('g, 's, 'd::linorder) geolib \<Rightarrow> ('g node, ('g, 'a) idrow) network \<Rightarrow> ('g, 'a) idrow \<Rightarrow> error + 'g node" where
  "resolve_end L network e =
     nearest_node L (snd (line_endpoints L (rgeometry e))) (nodes network)
       (tree_query L (map ngeometry (nodes network)))"

definition defective ::
  "('g, 's, 'd::linorder) geolib \<Rightarrow> ('g node, ('g, 'a) idrow) network \<Rightarrow> ('g, 'a) idrow \<Rightarrow> bool" where
  "defective L network e = (isl (resolve_start L network e) \<or> isl (resolve_end L network e))"

text \<open>
  A chain of three nodes whose degree column says 2 for the first node although only one
  edge touches it.
\<close>

definition net_stale :: "(grid_geom node, (grid_geom, string) edge) network" where
  "net_stale =
     \<lparr>nodes = [\<lparr>nid = 0, ngeometry = Point (0, 0)\<rparr>, \<lparr>nid = 1, ngeometry = Point (1, 0)\<rparr>,
               \<lparr>nid = 2, ngeometry = Point (2, 0)\<rparr>],
      degree = Some [2, 2, 1],
      edges = [\<lparr>eid = 0, geometry = LineString [(0, 0), (1, 0)], from_id = 0, to_id = 1,
                attrs = ''road''\<rparr>,
               \<lparr>eid = 1, geometry = LineString [(1, 0), (2, 0)], from_id = 1, to_id = 2,
                attrs = ''road''\<rparr>]\<rparr>"

text \<open>Two nodes joined by two edges, a straight one and one with a bend.\<close>

definition net_parallel :: "(grid_geom node, (grid_geom, string) edge) network" where
  "net_parallel =
     \<lparr>nodes = [\<lparr>nid = 0, ngeometry = Point (0, 0)\<rparr>, \<lparr>nid = 1, ngeometry = Point (2, 0)\<rparr>],
      degree = Some [2, 2],
      edges = [\<lparr>eid = 0, geometry = LineString [(0, 0), (2, 0)], from_id = 0, to_id = 1,
                attrs = ''road''\<rparr>,
               \<lparr>eid = 1, geometry = LineString [(0, 0), (1, 1), (2, 0)], from_id = 0, to_id = 1,
                attrs = ''lane''\<rparr>]\<rparr>"

text \<open>A chain of five nodes and four unit edges.\<close>

definition net_chain :: "(grid_geom node, (grid_geom, string) edge) network" where
  "net_chain =
     \<lparr>nodes = [\<lparr>nid = 0, ngeometry = Point (0, 0)\<rparr>, \<lparr>nid = 1, ngeometry = Point (1, 0)\<rparr>,
               \<lparr>nid = 2, ngeometry = Point (2, 0)\<rparr>, \<lparr>nid = 3, ngeometry = Point (3, 0)\<rparr>,
               \<lparr>nid = 4, ngeometry = Point (4, 0)\<rparr>],
      degree = Some [1, 2, 2, 2, 1],
      edges = [\<lparr>eid = 0, geometry = LineString [(0, 0), (1, 0)], from_id = 0, to_id = 1, attrs = ''a''\<rparr>,
               \<lparr>eid = 1, geometry = LineString [(1, 0), (2, 0)], from_id = 1, to_id = 2, attrs = ''b''\<rparr>,
               \<lparr>eid = 2, geometry = LineString [(2, 0), (3, 0)], from_id = 2, to_id = 3, attrs = ''c''\<rparr>,
               \<lparr>eid = 3, geometry = LineString [(3, 0), (4, 0)], from_id = 3, to_id = 4, attrs = ''d''\<rparr>]\<rparr>"

text \<open>
  The two ways in which an attempt of \<open>merge_2\<close> at the popped node \<open>nodeID\<close> is
  degenerate.  \<open>same_next\<close>: both edges found at the node lead to the same next node.
  \<open>merge_fails\<close>: both walks return and the merge of the collected geometries is not
  a single \<open>LineString\<close> (type id 1); \<open>merged_geometry\<close> is the result of that merge.
\<close>

definition same_next ::
  "('g, 's, 'd::linorder) geolib \<Rightarrow> ('g node, ('g, 'a) edge) network \<Rightarrow> ('g, 'a) m2state \<Rightarrow> int \<Rightarrow> bool" where
  "same_next L network st nodeID =
     (case first_edges L network (edg st) nodeID of
        Inr (Some (edgePath1, edgePath2)) \<Rightarrow> other_end edgePath1 nodeID = other_end edgePath2 nodeID
      | _ \<Rightarrow> False)"

definition merged_geometry ::
  "('g, 's, 'd::linorder) geolib \<Rightarrow> ('g node, ('g, 'a) edge) network \<Rightarrow> ('g, 'a) m2state \<Rightarrow> int \<Rightarrow> 'g option" where
  "merged_geometry L network st nodeID =
     (case first_edges L network (edg st) nodeID of
        Inr (Some (edgePath1, edgePath2)) \<Rightarrow>
          (if other_end edgePath1 nodeID = other_end edgePath2 nodeID then None
           else
             (case walk L network (edg st) (deg st) (\<lambda>_. other_end edgePath2 nodeID)
                     \<lparr>edgePath = edgePath1, nextNode = other_end edgePath1 nodeID,
                      pos_0_deg = [nodeID], pending = n2 st,
                      newEdge = [geometry edgePath1, geometry edgePath2],
                      possibly_delete = [eid edgePath2]\<rparr> of
                Some (Inr w1) \<Rightarrow>
                  (case walk L network (edg st) (deg st) (\<lambda>n. n)
                          (w1\<lparr>edgePath := edgePath2, nextNode := other_end edgePath2 nodeID\<rparr>) of
                     Some (Inr w2) \<Rightarrow> Some (line_merge_multi L (newEdge w2))
                   | _ \<Rightarrow> None)
              | _ \<Rightarrow> None))
      | _ \<Rightarrow> None)"

definition merge_fails ::
  "('g, 's, 'd::linorder) geolib \<Rightarrow> ('g node, ('g, 'a) edge) network \<Rightarrow> ('g, 'a) m2state \<Rightarrow> int \<Rightarrow> bool" where
  "merge_fails L network st nodeID =
     (case merged_geometry L network st nodeID of
        Some g \<Rightarrow> get_type_id L g \<noteq> 1
      | None \<Rightarrow> False)"

definition degenerate ::
  "('g, 's, 'd::linorder) geolib \<Rightarrow> ('g node, ('g, 'a) edge) network \<Rightarrow> ('g, 'a) m2state \<Rightarrow> int \<Rightarrow> bool" where
  "degenerate L network st nodeID = (same_next L network st nodeID \<or> merge_fails L network st nodeID)"

text \<open>
  \<open>report_raises\<close>: the id of the first edge found at the node is not the label of a
  row, so that reading the geometry at that label for the printed line raises.
\<close>

definition report_raises ::
  "('g, 's, 'd::linorder) geolib \<Rightarrow> ('g node, ('g, 'a) edge) network \<Rightarrow> ('g, 'a) m2state \<Rightarrow> int \<Rightarrow> bool" where
  "report_raises L network st nodeID =
     (case first_edges L network (edg st) nodeID of
        Inr (Some (edgePath1, edgePath2)) \<Rightarrow> isl (at_geometry (edg st) (eid edgePath1))
      | _ \<Rightarrow> False)"

text \<open>
  A junction that is not split: the edge from node 1 to node 2 runs through the point of
  node 0, where the edge to node 3 starts, and the degree column says 2 for node 0.
\<close>

definition net_tee :: "(grid_geom node, (grid_geom, string) edge) network" where
  "net_tee =
     \<lparr>nodes = [\<lparr>nid = 0, ngeometry = Point (1, 0)\<rparr>, \<lparr>nid = 1, ngeometry = Point (0, 0)\<rparr>,
               \<lparr>nid = 2, ngeometry = Point (2, 0)\<rparr>, \<lparr>nid = 3, ngeometry = Point (1, 2)\<rparr>],
      degree = Some [2, 1, 1, 1],
      edges = [\<lparr>eid = 0, geometry = LineString [(0, 0), (1, 0), (2, 0)], from_id = 1, to_id = 2,
                attrs = ''road''\<rparr>,
               \<lparr>eid = 1, geometry = LineString [(1, 0), (1, 2)], from_id = 0, to_id = 3,
                attrs = ''lane''\<rparr>]\<rparr>"

text \<open>The states of the loop of \<open>merge_2\<close> on two of the examples, after the first \<open>pop\<close>.\<close>

definition st_parallel :: "(grid_geom, string) m2state" where
  "st_parallel = \<lparr>edg = edges net_parallel, deg = [2, 2], n2 = [1], eIDtoRemove = [], out = []\<rparr>"

definition st_tee :: "(grid_geom, string) m2state" where
  "st_tee = \<lparr>edg = edges net_tee, deg = [2, 1, 1, 1], n2 = [], eIDtoRemove = [], out = []\<rparr>"

text \<open>The same junction with the edge ids 5 and 6, which are not row positions.\<close>

definition net_tee_ids :: "(grid_geom node, (grid_geom, string) edge) network" where
  "net_tee_ids =
     \<lparr>nodes = nodes net_tee, degree = degree net_tee,
      edges = [\<lparr>eid = 5, geometry = LineString [(0, 0), (1, 0), (2, 0)], from_id = 1, to_id = 2,
                attrs = ''road''\<rparr>,
               \<lparr>eid = 6, geometry = LineString [(1, 0), (1, 2)], from_id = 0, to_id = 3,
                attrs = ''lane''\<rparr>]\<rparr>"

definition st_tee_ids :: "(grid_geom, string) m2state" where
  "st_tee_ids = \<lparr>edg = edges net_tee_ids, deg = [2, 1, 1, 1], n2 = [], eIDtoRemove = [], out = []\<rparr>"

text \<open>The five-node chain after contraction: the two end nodes and one edge.\<close>

definition net_chain_merged :: "(grid_geom node, (grid_geom, string) edge) network" where
  "net_chain_merged =
     \<lparr>nodes = [\<lparr>nid = 0, ngeometry = Point (0, 0)\<rparr>, \<lparr>nid = 4, ngeometry = Point (4, 0)\<rparr>],
      degree = Some [1, 1],
      edges = [\<lparr>eid = 0, geometry = LineString [(0, 0), (1, 0), (2, 0), (3, 0), (4, 0)],
                from_id = 0, to_id = 4, attrs = ''a''\<rparr>]\<rparr>"

text \<open>
  A square roundabout around (1, 1), one edge that leaves it to the right, one that
  reaches it from the left, and one edge far away.  In \<open>net_ring_same_key\<close> the two
  edges at the roundabout carry the same \<open>osm_id\<close>.
\<close>

definition net_ring :: "(grid_geom, (grid_geom, int) way) network" where
  "net_ring =
     \<lparr>nodes = [], degree = None,
      edges = [\<lparr>osm_id = 1, highway = ''primary'',
                wgeometry = LineString [(0, 0), (2, 0), (2, 2), (0, 2), (0, 0)]\<rparr>,
               \<lparr>osm_id = 7, highway = ''primary'', wgeometry = LineString [(2, 1), (5, 1)]\<rparr>,
               \<lparr>osm_id = 8, highway = ''tertiary'', wgeometry = LineString [(- 3, 1), (0, 1)]\<rparr>,
               \<lparr>osm_id = 9, highway = ''tertiary'', wgeometry = LineString [(10, 10), (11, 10)]\<rparr>]\<rparr>"

definition net_ring_same_key :: "(grid_geom, (grid_geom, int) way) network" where
  "net_ring_same_key =
     \<lparr>nodes = [], degree = None,
      edges = [\<lparr>osm_id = 1, highway = ''primary'',
                wgeometry = LineString [(0, 0), (2, 0), (2, 2), (0, 2), (0, 0)]\<rparr>,
               \<lparr>osm_id = 7, highway = ''primary'', wgeometry = LineString [(2, 1), (5, 1)]\<rparr>,
               \<lparr>osm_id = 7, highway = ''tertiary'', wgeometry = LineString [(- 3, 1), (0, 1)]\<rparr>,
               \<lparr>osm_id = 9, highway = ''tertiary'', wgeometry = LineString [(10, 10), (11, 10)]\<rparr>]\<rparr>"


definition ids_are_positions :: "('g, 'a) edge list \<Rightarrow> bool" where
  "ids_are_positions es = (map eid es = map int [0 ..< length es])"

definition refs_among :: "('g, 'a) edge list \<Rightarrow> ('h, 'b) edge list \<Rightarrow> bool" where
  "refs_among es1 es = (\<forall>e\<in>set es1. \<exists>e0\<in>set es. from_id e = from_id e0 \<and> to_id e = to_id e0)"


section \<open>Properties\<close>

subsection \<open>Exceptions and library arrays\<close>

lemma fold_max_ge: "fold max ys (y::int) \<ge> y"
proof (induction ys arbitrary: y)
  case Nil show ?case by simp
next
  case (Cons a ys) 
  have "y \<le> max a y" by simp
  also have "\<dots> \<le> fold max ys (max a y)" by (rule Cons.IH)
  finally show ?case by simp
qed

lemma fold_max_eq: "fold max ys (y::int) = Max (set (y # ys))"
  by (rule Max.set_eq_fold[symmetric])

lemma bincount_valid:
  assumes "\<forall>x\<in>set xs. 0 \<le> x \<and> x < int n"
  shows "bincount xs n = Inr (map (\<lambda>i. int (count_list xs (int i))) [0..<n])"
proof -
  have neg: "\<not> list_ex (\<lambda>x. x < 0) xs" using assms by (auto simp: list_ex_iff)
  have "(case xs of [] \<Rightarrow> 0 | y # ys \<Rightarrow> nat (fold max ys y) + 1) \<le> n"
  proof (cases xs)
    case Nil then show ?thesis by simp
  next
    case (Cons y ys)
    have "Max (set (y # ys)) \<in> set (y # ys)" by (rule Max_in) auto
    then have "Max (set (y # ys)) < int n" using assms Cons by blast
    then have "fold max ys y < int n" by (simp only: fold_max_eq)
    moreover have "0 \<le> fold max ys y" using fold_max_ge[of y ys] assms Cons by simp
    ultimately show ?thesis using Cons by simp
  qed
  then show ?thesis using neg by (simp add: bincount_def max_def)
qed

lemma fold_min_by_in:
  "fold (\<lambda>x best. if key x < key best then x else best) ys (y::'x) \<in> set (y # ys)"
  by (induction ys arbitrary: y) auto

lemma fold_min_by_le:
  fixes key :: "'x \<Rightarrow> 'd::linorder"
  shows "\<forall>x\<in>set (y # ys). key (fold (\<lambda>x best. if key x < key best then x else best) ys y) \<le> key x"
proof (induction ys arbitrary: y)
  case Nil then show ?case by simp
next
  case (Cons a ys)
  let ?y' = "if key a < key y then a else y"
  let ?r = "fold (\<lambda>x best. if key x < key best then x else best) ys ?y'"
  have step: "fold (\<lambda>x best. if key x < key best then x else best) (a # ys) y = ?r" by simp
  have y': "key ?y' \<le> key y" "key ?y' \<le> key a" by auto
  have ih: "\<forall>x\<in>set (?y' # ys). key ?r \<le> key x" by (rule Cons.IH)
  then have "key ?r \<le> key ?y'" by simp
  then have "key ?r \<le> key y" "key ?r \<le> key a" using y' by (blast intro: order_trans)+
  moreover have "\<forall>x\<in>set ys. key ?r \<le> key x" using ih by simp
  ultimately show ?case unfolding step by simp
qed

lemma py_min_by_Inr:
  fixes key :: "'x \<Rightarrow> 'd::linorder"
  assumes "xs \<noteq> []"
  shows "\<exists>m. py_min_by key xs = Inr m \<and> m \<in> set xs \<and> (\<forall>x\<in>set xs. key m \<le> key x)"
proof -
  obtain y ys where xs: "xs = y # ys" using assms by (cases xs) auto
  show ?thesis unfolding xs py_min_by_def
    using fold_min_by_in[of key ys y] fold_min_by_le[of y ys key] by auto
qed

lemma py_min_by_Nil [simp]: "py_min_by key [] = Inl ValueError"
  by (simp add: py_min_by_def)

lemma py_dict_fold_map_of:
  "map_of (fold (\<lambda>(k, v). AList.update k v) kvs acc) = map_of acc ++ map_of (rev kvs)"
proof (induction kvs arbitrary: acc)
  case Nil show ?case by simp
next
  case (Cons kv kvs)
  obtain k v where kv: "kv = (k, v)" by (cases kv)
  have "map_of (fold (\<lambda>(k, v). AList.update k v) kvs (AList.update k v acc))
          = map_of (AList.update k v acc) ++ map_of (rev kvs)" by (rule Cons.IH)
  also have "\<dots> = (map_of acc)(k \<mapsto> v) ++ map_of (rev kvs)" by (simp only: update_conv')
  also have "\<dots> = map_of acc ++ map_of (rev ((k, v) # kvs))"
    by (rule ext) (auto simp: map_add_def split: option.splits)
  finally show ?case by (simp add: kv)
qed


lemma py_dict_fold_distinct:
  "distinct (map fst acc) \<Longrightarrow> distinct (map fst (fold (\<lambda>(k, v). AList.update k v) kvs acc))"
proof (induction kvs arbitrary: acc)
  case Nil then show ?case by simp
next
  case (Cons kv kvs)
  obtain k v where kv: "kv = (k, v)" by (cases kv)
  show ?case using Cons.prems by (simp add: kv Cons.IH distinct_update)
qed

lemma map_of_py_dict: "map_of (py_dict kvs) = map_of (rev kvs)"
  by (simp add: py_dict_def py_dict_fold_map_of)

lemma distinct_py_dict: "distinct (map fst (py_dict kvs))"
  by (simp add: py_dict_def py_dict_fold_distinct)

lemma fold_pair_split:
  "fold (\<lambda>(k, v) (nt, nf). (f k v nt, g k v nf)) items (a, b)
     = (fold (\<lambda>(k, v). f k v) items a, fold (\<lambda>(k, v). g k v) items b)"
  by (induction items arbitrary: a b) auto

lemma length_mask_assign [simp]: "length (mask_assign col k v arr) = min (length col) (length arr)"
  by (simp add: mask_assign_def)

lemma length_fold_mask_assign:
  "length arr = length col \<Longrightarrow> length (fold (\<lambda>(k, v). mask_assign col k v) items arr) = length col"
  by (induction items arbitrary: arr) auto

lemma fold_mask_assign_nth:
  assumes "distinct (map fst items)" "length arr = length col" "i < length col"
  shows "fold (\<lambda>(k, v). mask_assign col k v) items arr ! i
           = (case map_of items (col ! i) of Some v \<Rightarrow> v | None \<Rightarrow> arr ! i)"
  using assms
proof (induction items arbitrary: arr)
  case Nil then show ?case by simp
next
  case (Cons kv items)
  obtain k v where kv: "kv = (k, v)" by (cases kv)
  have d: "distinct (map fst items)" "k \<notin> fst ` set items" using Cons.prems(1) by (auto simp: kv)
  have l: "length (mask_assign col k v arr) = length col" using Cons.prems(2) by simp
  have "fold (\<lambda>(k, v). mask_assign col k v) items (mask_assign col k v arr) ! i
           = (case map_of items (col ! i) of Some v \<Rightarrow> v | None \<Rightarrow> mask_assign col k v arr ! i)"
    by (rule Cons.IH[OF d(1) l Cons.prems(3)])
  moreover have "mask_assign col k v arr ! i = (if col ! i = k then v else arr ! i)"
    using Cons.prems by (simp add: mask_assign_def)
  moreover have "col ! i = k \<Longrightarrow> map_of items (col ! i) = None"
    using d(2) by (simp add: map_of_eq_None_iff)
  ultimately show ?case by (auto simp: kv split: option.splits)
qed

lemma map_of_rev_distinct: "distinct (map fst kvs) \<Longrightarrow> map_of (rev kvs) = map_of kvs"
proof (rule ext)
  fix x
  assume d: "distinct (map fst kvs)"
  have dr: "distinct (map fst (rev kvs))" using d by (simp add: rev_map[symmetric])
  show "map_of (rev kvs) x = map_of kvs x"
  proof (cases "map_of kvs x")
    case None
    then have "x \<notin> fst ` set (rev kvs)" by (simp add: map_of_eq_None_iff)
    then have "map_of (rev kvs) x = None" by (rule map_of_eq_None_iff[THEN iffD2])
    then show ?thesis using None by simp
  next
    case (Some y)
    then have "(x, y) \<in> set (rev kvs)" using d by (simp add: map_of_eq_Some_iff)
    then show ?thesis using Some dr by (simp only: map_of_eq_Some_iff)
  qed
qed

subsection \<open>Degree engine\<close>

text \<open>
  On a network with at least one edge whose references are positions of the node table,
  \<open>calculate_degree\<close> returns one entry per node, the number of edges that start at
  the node plus the number of edges that end at it.
\<close>

lemma calculate_degree_counts:
  assumes ne: "edges network \<noteq> []"
    and v: "\<forall>e\<in>set (edges network). 0 \<le> from_id e \<and> from_id e < int (length (nodes network))
             \<and> 0 \<le> to_id e \<and> to_id e < int (length (nodes network))"
  shows "\<exists>ms. calculate_degree network = Inr (ms, map (\<lambda>i. int (count_list (map from_id (edges network)) (int i)) + int (count_list (map to_id (edges network)) (int i))) [0..<length (nodes network)])"
proof -
  let ?n = "length (nodes network)"
  have bf: "bincount (map from_id (edges network)) ?n = Inr (map (\<lambda>i. int (count_list (map from_id (edges network)) (int i))) [0..<?n])"
    by (rule bincount_valid) (use v in auto)
  have bt: "bincount (map to_id (edges network)) ?n = Inr (map (\<lambda>i. int (count_list (map to_id (edges network)) (int i))) [0..<?n])"
    by (rule bincount_valid) (use v in auto)
  obtain e es where es: "edges network = e # es" using ne by (cases "edges network") auto
  have add: "np_add (map (\<lambda>i. int (count_list (map from_id (edges network)) (int i))) [0..<?n]) (map (\<lambda>i. int (count_list (map to_id (edges network)) (int i))) [0..<?n])
     = Inr (map (\<lambda>i. int (count_list (map from_id (edges network)) (int i)) + int (count_list (map to_id (edges network)) (int i))) [0..<?n])"
    by (simp add: np_add_def) (rule nth_equalityI, simp_all)
  show ?thesis
    unfolding calculate_degree_def degree_guard_def Let_def bf bt
    by (simp add: es py_max_def add[unfolded es, simplified])
qed

text \<open>
  Claim C9: on a network with dense node ids and valid edge references,
  \<open>calculate_degree\<close> returns for every node id the number of edges whose
  \<open>from_id\<close> is the id plus the number of edges whose \<open>to_id\<close> is the id.  An
  edge table without rows meets the conditions of the claim, and the degrees of all nodes
  are then zero; the function raises \<open>ValueError\<close> there instead, because the guard of
  its diagnostic line takes \<open>max\<close> of the empty \<open>from_id\<close> column.  The theorem
  evaluates the function on one node and no edge.
\<close>

theorem calculate_degree_no_edges:
  "calculate_degree \<lparr>nodes = [\<lparr>nid = 0, ngeometry = Point (0, 0)\<rparr>], degree = None,
                      edges = ([] :: (grid_geom, string) edge list)\<rparr> = Inl ValueError"
  by (simp add: calculate_degree_def degree_guard_def py_max_def)

subsection \<open>Id and table manager\<close>

text \<open>
  Claim C8: when the node ids are distinct (an id identifies a node) and every edge
  references ids of the node table, \<open>reset_ids\<close> numbers the nodes and the edges
  \<open>0..n-1\<close> in row order, keeps the geometry of every node, the degree column and the
  geometry and attributes of every edge, and rewrites the references so that an edge that
  referenced the node in row \<open>j\<close> references the new id of row \<open>j\<close>: it connects
  the same two nodes, only the ids are renumbered.
\<close>

theorem reset_ids_renumbers:
  fixes network :: "('g node, ('g, 'a) edge) network"
  assumes nodup: "distinct (map nid (nodes network))"
    and refs: "\<forall>e\<in>set (edges network). from_id e \<in> nid ` set (nodes network) \<and> to_id e \<in> nid ` set (nodes network)"
  shows "map nid (nodes (reset_ids network)) = map int [0 ..< length (nodes network)]
    \<and> map eid (edges (reset_ids network)) = map int [0 ..< length (edges network)]
    \<and> map ngeometry (nodes (reset_ids network)) = map ngeometry (nodes network)
    \<and> degree (reset_ids network) = degree network
    \<and> map geometry (edges (reset_ids network)) = map geometry (edges network)
    \<and> map attrs (edges (reset_ids network)) = map attrs (edges network)
    \<and> (\<forall>i<length (edges network). \<exists>j k. j < length (nodes network) \<and> k < length (nodes network) \<and>
           from_id (edges network ! i) = nid (nodes network ! j) \<and>
           from_id (edges (reset_ids network) ! i) = nid (nodes (reset_ids network) ! j) \<and>
           to_id (edges network ! i) = nid (nodes network ! k) \<and>
           to_id (edges (reset_ids network) ! i) = nid (nodes (reset_ids network) ! k))"
proof -
  let ?nds = "nodes network" and ?eds = "edges network"
  let ?new = "map int [0 ..< length ?nds]"
  let ?kvs = "zip (map nid ?nds) ?new"
  let ?items = "py_dict ?kvs"
  let ?nt = "fold (\<lambda>(k, v). mask_assign (map to_id ?eds) k v) ?items (map to_id ?eds)"
  let ?nf = "fold (\<lambda>(k, v). mask_assign (map from_id ?eds) k v) ?items (map from_id ?eds)"
  have r: "reset_ids network =
      \<lparr>nodes = map (\<lambda>(n, i). n\<lparr>nid := i\<rparr>) (zip ?nds ?new), degree = degree network,
       edges = map (\<lambda>(e, i, f, t). e\<lparr>from_id := f, to_id := t, eid := i\<rparr>)
                    (zip ?eds (zip (map int [0 ..< length ?eds]) (zip ?nf ?nt)))\<rparr>"
    by (simp add: reset_ids_def Let_def fold_pair_split)
  have lnt: "length ?nt = length ?eds" and lnf: "length ?nf = length ?eds"
    by (simp_all add: length_fold_mask_assign)
  have c1: "map nid (nodes (reset_ids network)) = map int [0 ..< length ?nds]"
    unfolding r by (rule nth_equalityI) simp_all
  have c2: "map eid (edges (reset_ids network)) = map int [0 ..< length ?eds]"
    unfolding r by (rule nth_equalityI) (simp_all add: lnt lnf)
  have c3: "map ngeometry (nodes (reset_ids network)) = map ngeometry ?nds"
    unfolding r by (rule nth_equalityI) simp_all
  have c4: "degree (reset_ids network) = degree network" unfolding r by simp
  have c5: "map geometry (edges (reset_ids network)) = map geometry ?eds"
    unfolding r by (rule nth_equalityI) (simp_all add: lnt lnf)
  have c6: "map attrs (edges (reset_ids network)) = map attrs ?eds"
    unfolding r by (rule nth_equalityI) (simp_all add: lnt lnf)
  have dk: "distinct (map fst ?kvs)" using nodup by simp
  have mo: "map_of ?items = map_of ?kvs"
    by (simp only: map_of_py_dict map_of_rev_distinct[OF dk])
  have look: "\<And>j. j < length ?nds \<Longrightarrow> map_of ?items (nid (?nds ! j)) = Some (int j)"
  proof -
    fix j assume j: "j < length ?nds"
    have "map_of ?kvs (map nid ?nds ! j) = Some (?new ! j)"
      by (rule map_of_zip_nth) (use nodup j in simp_all)
    then show "map_of ?items (nid (?nds ! j)) = Some (int j)" using j by (simp add: mo)
  qed
  have c7: "\<forall>i<length ?eds. \<exists>j k. j < length ?nds \<and> k < length ?nds \<and>
           from_id (?eds ! i) = nid (?nds ! j) \<and>
           from_id (edges (reset_ids network) ! i) = nid (nodes (reset_ids network) ! j) \<and>
           to_id (?eds ! i) = nid (?nds ! k) \<and>
           to_id (edges (reset_ids network) ! i) = nid (nodes (reset_ids network) ! k)"
  proof (intro allI impI)
    fix i assume i: "i < length ?eds"
    then have "?eds ! i \<in> set ?eds" by simp
    then have "from_id (?eds ! i) \<in> nid ` set ?nds" "to_id (?eds ! i) \<in> nid ` set ?nds"
      using refs by blast+
    then obtain j k where j: "j < length ?nds" "from_id (?eds ! i) = nid (?nds ! j)"
      and k: "k < length ?nds" "to_id (?eds ! i) = nid (?nds ! k)"
      by (auto simp: in_set_conv_nth)
    have "?nf ! i = (case map_of ?items (map from_id ?eds ! i) of Some v \<Rightarrow> v | None \<Rightarrow> map from_id ?eds ! i)"
      by (rule fold_mask_assign_nth) (use i in \<open>simp_all add: distinct_py_dict\<close>)
    then have nf: "?nf ! i = int j" using i j look[OF j(1)] by simp
    have "?nt ! i = (case map_of ?items (map to_id ?eds ! i) of Some v \<Rightarrow> v | None \<Rightarrow> map to_id ?eds ! i)"
      by (rule fold_mask_assign_nth) (use i in \<open>simp_all add: distinct_py_dict\<close>)
    then have nt: "?nt ! i = int k" using i k look[OF k(1)] by simp
    have "from_id (edges (reset_ids network) ! i) = int j" "to_id (edges (reset_ids network) ! i) = int k"
      unfolding r using i nf nt by (simp_all add: lnt lnf)
    moreover have "nid (nodes (reset_ids network) ! j) = int j" "nid (nodes (reset_ids network) ! k) = int k"
      unfolding r using j k by simp_all
    ultimately show "\<exists>j k. j < length ?nds \<and> k < length ?nds \<and>
           from_id (?eds ! i) = nid (?nds ! j) \<and>
           from_id (edges (reset_ids network) ! i) = nid (nodes (reset_ids network) ! j) \<and>
           to_id (?eds ! i) = nid (?nds ! k) \<and>
           to_id (edges (reset_ids network) ! i) = nid (nodes (reset_ids network) ! k)"
      using j k by (intro exI[of _ j] exI[of _ k]) simp
  qed
  show ?thesis using c1 c2 c3 c4 c5 c6 c7 by (intro conjI)
qed

theorem reset_ids_renumbers_witness:
  "distinct (map nid (nodes net_sparse)) \<and>
   list_all (\<lambda>e. from_id e \<in> nid ` set (nodes net_sparse) \<and> to_id e \<in> nid ` set (nodes net_sparse))
     (edges net_sparse) \<and>
   map nid (nodes (reset_ids net_sparse)) = [0, 1] \<and>
   map eid (edges (reset_ids net_sparse)) = [0] \<and>
   map ngeometry (nodes (reset_ids net_sparse)) = [Point (0, 0), Point (3, 0)] \<and>
   map attrs (edges (reset_ids net_sparse)) = [''road'']"
proof -
  have d: "distinct (map nid (nodes net_sparse))"
    by (simp add: net_sparse_def)
  have r: "\<forall>e\<in>set (edges net_sparse).
             from_id e \<in> nid ` set (nodes net_sparse) \<and> to_id e \<in> nid ` set (nodes net_sparse)"
    by (simp add: net_sparse_def)
  have n: "map int [0 ..< length (nodes net_sparse)] = [0, 1]"
    by (simp add: net_sparse_def upt_rec[of 0])
  have e: "map int [0 ..< length (edges net_sparse)] = [0]"
    by (simp add: net_sparse_def)
  have g: "map ngeometry (nodes net_sparse) = [Point (0, 0), Point (3, 0)]"
    by (simp add: net_sparse_def)
  have a: "map attrs (edges net_sparse) = [''road'']"
    by (simp add: net_sparse_def)
  from reset_ids_renumbers [OF d r] d r n e g a show ?thesis
    by (simp add: list_all_iff)
qed

text \<open>The same network, evaluated: the edge from id 9 to id 5 runs from id 1 to id 0.\<close>

lemma reset_ids_net_sparse:
  "reset_ids net_sparse =
     \<lparr>nodes = [\<lparr>nid = 0, ngeometry = Point (0, 0)\<rparr>, \<lparr>nid = 1, ngeometry = Point (3, 0)\<rparr>],
      degree = Some [1, 1],
      edges = [\<lparr>eid = 0, geometry = LineString [(3, 0), (0, 0)], from_id = 1, to_id = 0,
                attrs = ''road''\<rparr>]\<rparr>"
  by (simp add: reset_ids_def net_sparse_def py_dict_def mask_assign_def upt_rec[of 0])

subsection \<open>Geometry utilities\<close>

lemma nearest_vertex_idx_on_line_Inr:
  fixes vdist :: "'c \<Rightarrow> 'c \<Rightarrow> 'd::linorder"
  assumes "line \<noteq> []"
  shows "\<exists>v. nearest_vertex_idx_on_line vdist point line = Inr v \<and> v < length line \<and>
             (\<forall>j<length line. vdist point (line ! v) \<le> vdist point (line ! j))"
proof -
  let ?xs = "map (\<lambda>(idx, coords). (idx, vdist point coords)) (enumerate 0 line)"
  have ne: "?xs \<noteq> []" using assms by (cases line) auto
  obtain m where m: "py_min_by snd ?xs = Inr m" "m \<in> set ?xs" "\<forall>x\<in>set ?xs. snd m \<le> snd x"
    using py_min_by_Inr[OF ne, of snd] by blast
  have el: "\<And>j. j < length line \<Longrightarrow> (j, vdist point (line ! j)) \<in> set ?xs"
  proof -
    fix j assume j: "j < length line"
    then have "(j, line ! j) \<in> set (enumerate 0 line)" by (simp add: in_set_enumerate_eq)
    then show "(j, vdist point (line ! j)) \<in> set ?xs" by force
  qed
  obtain v where v: "m = (v, vdist point (line ! v))" "v < length line"
    using m(2) by (auto simp: in_set_enumerate_eq)
  have "\<forall>j<length line. vdist point (line ! v) \<le> vdist point (line ! j)"
    using m(3) el v(1) by fastforce
  then show ?thesis using m(1) v by (simp add: nearest_vertex_idx_on_line_def)
qed

text \<open>
  Claim C10: for a line with at least one vertex (so that it has a nearest vertex) and a
  point, \<open>add_vertex\<close> returns the line unchanged when the point equals the nearest
  vertex, and otherwise the line with the point inserted at one position \<open>k\<close>: one
  vertex more, the old vertices before and after \<open>k\<close> in their order.
\<close>

theorem add_vertex_inserts_once:
  fixes vdist :: "'c \<Rightarrow> 'c \<Rightarrow> 'd::linorder"
  assumes "line \<noteq> []"
  shows "\<exists>v. nearest_vertex_idx_on_line vdist point line = Inr v \<and> v < length line \<and>
           (\<forall>j<length line. vdist point (line ! v) \<le> vdist point (line ! j)) \<and>
           (if point = line ! v
            then add_vertex vdist seg_dist line point = Inr line
            else \<exists>k r. add_vertex vdist seg_dist line point = Inr r \<and> k \<le> length line \<and>
                   r = take k line @ point # drop k line \<and> length r = length line + 1)"
proof -
  obtain v where v: "nearest_vertex_idx_on_line vdist point line = Inr v" "v < length line"
     "\<forall>j<length line. vdist point (line ! v) \<le> vdist point (line ! j)"
    using nearest_vertex_idx_on_line_Inr[OF assms] by blast
  show ?thesis
  proof (cases "point = line ! v")
    case True
    then show ?thesis using v by (auto simp: add_vertex_def)
  next
    case False
    define k where "k = (if v = 0 then 1
                 else if v = length line - 1 then v
                 else if seg_dist point (line ! v) (line ! (v - 1))
                           < seg_dist point (line ! v) (line ! (v + 1))
                      then v
                      else v + 1)"
    have kl: "k \<le> length line" using v(2) assms by (auto simp: k_def)
    have "add_vertex vdist seg_dist line point = Inr (take k line @ point # drop k line)"
      using v False by (simp add: add_vertex_def py_insert_def k_def Let_def)
    then show ?thesis using v False kl by auto
  qed
qed

theorem add_vertex_inserts_once_witness:
  "line3 \<noteq> [] \<and>
   (\<exists>v. nearest_vertex_idx_on_line sq_dist pt5 line3 = Inr v \<and> v < length line3 \<and>
        (\<forall>j<length line3. sq_dist pt5 (line3 ! v) \<le> sq_dist pt5 (line3 ! j)) \<and>
        (if pt5 = line3 ! v
         then add_vertex sq_dist seg_sq_dist line3 pt5 = Inr line3
         else \<exists>k r. add_vertex sq_dist seg_sq_dist line3 pt5 = Inr r \<and> k \<le> length line3 \<and>
                r = take k line3 @ pt5 # drop k line3 \<and> length r = length line3 + 1))"
proof -
  have h: "line3 \<noteq> []" by (simp add: line3_def)
  show ?thesis by (rule conjI [OF h add_vertex_inserts_once [OF h]])
qed

text \<open>The same call, evaluated: the point goes between the second and the third vertex.\<close>

lemma add_vertex_example:
  "add_vertex sq_dist seg_sq_dist line3 pt5 = Inr [(0, 0), (4, 0), (5, 0), (8, 0)]"
  by code_simp

subsection \<open>Topology builder\<close>

lemma emap_Inr_nth:
  "emap f xs = Inr ys \<Longrightarrow> length ys = length xs \<and> (\<forall>i<length xs. f (xs ! i) = Inr (ys ! i))"
proof (induction xs arbitrary: ys)
  case Nil then show ?case by simp
next
  case (Cons x xs)
  from Cons.prems obtain y ys' where y: "f x = Inr y" and ys': "emap f xs = Inr ys'" and eq: "ys = y # ys'"
    by (auto simp: ebind_def split: sum.splits)
  from Cons.IH[OF ys'] have "length ys' = length xs" "\<forall>i<length xs. f (xs ! i) = Inr (ys' ! i)" by auto
  then show ?case using y eq by (auto simp: nth_Cons split: nat.splits)
qed

lemma emap_iloc_subset: "emap (iloc rows) is = Inr ms \<Longrightarrow> set ms \<subseteq> set rows"
proof -
  assume a: "emap (iloc rows) is = Inr ms"
  from emap_Inr_nth[OF a] have l: "length ms = length is" and n: "\<forall>i<length is. iloc rows (is ! i) = Inr (ms ! i)" by auto
  show "set ms \<subseteq> set rows"
  proof
    fix m assume "m \<in> set ms"
    then obtain i where i: "i < length ms" "m = ms ! i" by (auto simp: in_set_conv_nth)
    then have "iloc rows (is ! i) = Inr m" using l n by simp
    then show "m \<in> set rows" by (auto simp: iloc_def split: if_splits)
  qed
qed


lemma topology_step_append:
  "topology_step L nds sindex (fs, ts, bs) e =
     (fs @ [case nearest_node L (fst (line_endpoints L (rgeometry e))) nds sindex of Inr n \<Rightarrow> nid n | Inl _ \<Rightarrow> - 1],
      ts @ [case nearest_node L (snd (line_endpoints L (rgeometry e))) nds sindex of Inr n \<Rightarrow> nid n | Inl _ \<Rightarrow> - 1],
      bs @ (case nearest_node L (fst (line_endpoints L (rgeometry e))) nds sindex of Inr n \<Rightarrow> [] | Inl _ \<Rightarrow> [rid e])
         @ (case nearest_node L (snd (line_endpoints L (rgeometry e))) nds sindex of Inr n \<Rightarrow> [] | Inl _ \<Rightarrow> [rid e]))"
  by (simp add: topology_step_def Let_def split_beta split: sum.splits prod.splits)

lemma topology_fold:
  "foldl (topology_step L nds sindex) (fs, ts, bs) es =
     (fs @ map (\<lambda>e. case nearest_node L (fst (line_endpoints L (rgeometry e))) nds sindex of Inr n \<Rightarrow> nid n | Inl _ \<Rightarrow> - 1) es,
      ts @ map (\<lambda>e. case nearest_node L (snd (line_endpoints L (rgeometry e))) nds sindex of Inr n \<Rightarrow> nid n | Inl _ \<Rightarrow> - 1) es,
      bs @ concat (map (\<lambda>e. (case nearest_node L (fst (line_endpoints L (rgeometry e))) nds sindex of Inr n \<Rightarrow> [] | Inl _ \<Rightarrow> [rid e])
         @ (case nearest_node L (snd (line_endpoints L (rgeometry e))) nds sindex of Inr n \<Rightarrow> [] | Inl _ \<Rightarrow> [rid e])) es))"
proof (induction es arbitrary: fs ts bs)
  case Nil show ?case by simp
next
  case (Cons e es)
  show ?case by (simp only: foldl_Cons topology_step_append Cons.IH) simp
qed

text \<open>
  \<open>add_topology\<close> in closed form: the printed number is the number of lookups that
  raised, the references are the ids of the nearest nodes, and a row stays when its id is
  not the id of a defective edge.
\<close>

lemma add_topology_unfold:
  fixes L :: "('g, 's, 'd::linorder) geolib" and network :: "('g node, ('g, 'a) idrow) network"
  shows "add_topology L network =
    ([Not_connected (length (filter (\<lambda>e. isl (resolve_start L network e)) (edges network))
                     + length (filter (\<lambda>e. isl (resolve_end L network e)) (edges network)))],
     \<lparr>nodes = nodes network, degree = degree network,
      edges = filter (\<lambda>r. eid r \<notin> rid ` {e \<in> set (edges network). defective L network e})
        (map (\<lambda>e. \<lparr>eid = rid e, geometry = rgeometry e,
                   from_id = (case resolve_start L network e of Inr n \<Rightarrow> nid n | Inl _ \<Rightarrow> - 1),
                   to_id = (case resolve_end L network e of Inr n \<Rightarrow> nid n | Inl _ \<Rightarrow> - 1),
                   attrs = rattrs e\<rparr>) (edges network))\<rparr>)"
proof -
  let ?es = "edges network"
  let ?bug = "\<lambda>e. (case resolve_start L network e of Inr n \<Rightarrow> [] | Inl _ \<Rightarrow> [rid e])
         @ (case resolve_end L network e of Inr n \<Rightarrow> [] | Inl _ \<Rightarrow> [rid e])"
  have len: "length (concat (map ?bug es)) = length (filter (\<lambda>e. isl (resolve_start L network e)) es)
                     + length (filter (\<lambda>e. isl (resolve_end L network e)) es)" for es
    by (induction es) (auto split: sum.splits)
  have b: "set (?bug e) = (if defective L network e then {rid e} else {})" for e
    by (cases "resolve_start L network e"; cases "resolve_end L network e") (simp_all add: defective_def)
  have st: "set (concat (map ?bug es)) = rid ` {e \<in> set es. defective L network e}" for es
    unfolding set_concat set_map image_image b by (auto split: if_splits)
  have z: "zip es (zip (map f es) (map g es)) = map (\<lambda>e. (e, f e, g e)) es" for es :: "('g, 'a) idrow list" and f g :: "('g, 'a) idrow \<Rightarrow> int"
    by (induction es) auto
  have F: "foldl (topology_step L (nodes network) (tree_query L (map ngeometry (nodes network)))) ([], [], []) ?es
      = (map (\<lambda>e. case resolve_start L network e of Inr n \<Rightarrow> nid n | Inl _ \<Rightarrow> - 1) ?es,
         map (\<lambda>e. case resolve_end L network e of Inr n \<Rightarrow> nid n | Inl _ \<Rightarrow> - 1) ?es,
         concat (map ?bug ?es))"
    unfolding topology_fold resolve_start_def resolve_end_def by simp
  show ?thesis
    unfolding add_topology_def Let_def F prod.case z len st
    by (simp add: o_def)
qed


lemma add_topology_nodes:
  fixes L :: "('g, 's, 'd::linorder) geolib"
  shows "nodes (snd (add_topology L network)) = nodes network \<and>
         degree (snd (add_topology L network)) = degree network"
  by (simp add: add_topology_unfold)


lemma add_topology_drops:
  fixes L :: "('g, 's, 'd::linorder) geolib"
  assumes "distinct (map rid (edges network))"
  shows "edges (snd (add_topology L network)) =
     map (\<lambda>e. \<lparr>eid = rid e, geometry = rgeometry e,
                from_id = (case resolve_start L network e of Inr n \<Rightarrow> nid n | Inl _ \<Rightarrow> - 1),
                to_id = (case resolve_end L network e of Inr n \<Rightarrow> nid n | Inl _ \<Rightarrow> - 1),
                attrs = rattrs e\<rparr>)
       (filter (\<lambda>e. \<not> defective L network e) (edges network))"
proof -
  have inj: "inj_on rid (set (edges network))" using assms by (simp add: distinct_map)
  have "e \<in> set (edges network) \<Longrightarrow>
      (rid e \<notin> rid ` {e \<in> set (edges network). defective L network e}) = (\<not> defective L network e)" for e
    using inj by (auto dest: inj_onD)
  then show ?thesis
    by (simp add: add_topology_unfold filter_map o_def cong: filter_cong)
qed

text \<open>
  Claim C4: \<open>add_topology\<close> drops exactly the edges with an endpoint that does not
  resolve, reports their number, one per defective edge, leaves the node table untouched
  and gives every surviving edge valid references.  The lemmas above confirm the drop
  (for distinct edge ids), the node table and the references.  The reported number is
  the length of \<open>bugs\<close>, to which each of the two \<open>except\<close> branches appends the
  edge id: an edge that resolves at neither end is counted twice.  The theorem evaluates
  the function on one node at the origin and one edge from (5, 5) to (6, 5): one
  defective edge, and the line printed is "2 Edges not connected to nodes".
\<close>

theorem add_topology_counts_endpoints:
  "add_topology grid_lib net_far =
     ([Not_connected 2], \<lparr>nodes = nodes net_far, degree = None, edges = []\<rparr>)"
  by code_simp

subsection \<open>Hanging-node pruner\<close>

text \<open>An edge with a degree-1 node at both ends is a candidate row twice.\<close>

lemma hanging_candidates_stub:
  "hanging_candidates [1, 1] (edges net_stub) = [hd (edges net_stub), hd (edges net_stub)]"
  by code_simp

text \<open>
  Claim C3: in \<open>drop_hanging_nodes\<close> a candidate edge shorter than the tolerance is
  dropped and the degrees of its two ends go down by exactly one, and no edge is dropped
  or decremented more than once per rule.  The candidate rows are the edges whose
  \<open>to_id\<close> is a degree-1 node followed by the edges whose \<open>from_id\<close> is one, so an
  edge with a degree-1 node at both ends is visited twice, and when it is short the first
  rule fires on both visits.  The theorem evaluates the function, with tolerance 2, on
  two nodes joined by one edge of length 1: both degrees end at \<open>-1\<close>, not at 0.
\<close>

theorem drop_hanging_nodes_decrements_twice:
  "drop_hanging_nodes grid_lib 2 net_stub =
     Inr ([], \<lparr>nodes = nodes net_stub, degree = Some [- 1, - 1], edges = []\<rparr>)"
  by code_simp

subsection \<open>Degree-2 chain contractor\<close>

text \<open>A walk whose \<open>try\<close> block raises at its frontier node does not return.\<close>

lemma walk_stuck:
  fixes L :: "('g, 's, 'd::linorder) geolib" and w :: "('g, 'a) walk_vars"
  assumes d2: "np_get degs (nextNode w) = Inr 2"
    and nin: "nextNode w \<notin> set (pos_0_deg w)"
    and g: "nodGeom network (nextNode w) = Inr g"
    and c: "walk_candidate L network edges_now (keyOf (nextNode w))
              (filter (\<lambda>i. int i \<noteq> eid (edgePath w)) (edg_sindex_query L network g)) = Inl x"
  shows "walk L network edges_now degs keyOf w = None"
proof (rule ccontr)
  assume "walk L network edges_now degs keyOf w \<noteq> None"
  then obtain r where r: "walk L network edges_now degs keyOf w = Some r" by auto
  have "walk L' network' edges_now' degs' keyOf' w' = Some r' \<Longrightarrow>
        L' = L \<Longrightarrow> network' = network \<Longrightarrow> edges_now' = edges_now \<Longrightarrow> degs' = degs \<Longrightarrow>
        keyOf' = keyOf \<Longrightarrow> w' = w \<Longrightarrow> False"
    for L' :: "('g, 's, 'd) geolib" and network' edges_now' degs' keyOf' and w' :: "('g, 'a) walk_vars" and r'
  proof (induct rule: walk.raw_induct[rotated 1, consumes 1, case_names body])
    case (body wf L' network' edges_now' degs' keyOf' w' r')
    note eqs = body.prems
    have "wf L network edges_now degs keyOf w = Some r'"
      using body.hyps(2)[unfolded eqs] d2 nin g c by simp
    from body.hyps(1)[OF this] show False by simp
  qed
  from this[OF r] show False by simp
qed

lemma net_stale_walk:
  "walk grid_lib net_stale (edges net_stale) [2, 2, 1] (\<lambda>_. 2)
     \<lparr>edgePath = hd (edges net_stale), nextNode = 0, pos_0_deg = [1], pending = [],
      newEdge = [geometry (hd (edges net_stale)), geometry (last (edges net_stale))],
      possibly_delete = [1]\<rparr> = None"
proof (rule walk_stuck)
  show "np_get [2, 2, 1] (nextNode \<lparr>edgePath = hd (edges net_stale), nextNode = 0, pos_0_deg = [1], pending = [],
      newEdge = [geometry (hd (edges net_stale)), geometry (last (edges net_stale))],
      possibly_delete = [1]\<rparr>) = Inr 2" by code_simp
  show "nextNode \<lparr>edgePath = hd (edges net_stale), nextNode = 0, pos_0_deg = [1], pending = [],
      newEdge = [geometry (hd (edges net_stale)), geometry (last (edges net_stale))],
      possibly_delete = [1]\<rparr> \<notin> set (pos_0_deg \<lparr>edgePath = hd (edges net_stale), nextNode = 0, pos_0_deg = [1], pending = [],
      newEdge = [geometry (hd (edges net_stale)), geometry (last (edges net_stale))],
      possibly_delete = [1]\<rparr>)" by simp
  show "nodGeom net_stale (nextNode \<lparr>edgePath = hd (edges net_stale), nextNode = 0, pos_0_deg = [1], pending = [],
      newEdge = [geometry (hd (edges net_stale)), geometry (last (edges net_stale))],
      possibly_delete = [1]\<rparr>) = Inr (Point (0, 0))" by code_simp
  show "walk_candidate grid_lib net_stale (edges net_stale) 2
     (filter (\<lambda>i. int i \<noteq> eid (edgePath \<lparr>edgePath = hd (edges net_stale), nextNode = 0, pos_0_deg = [1], pending = [],
      newEdge = [geometry (hd (edges net_stale)), geometry (last (edges net_stale))],
      possibly_delete = [1]\<rparr>)) (edg_sindex_query grid_lib net_stale (Point (0, 0)))) = Inl ValueError"
    by code_simp
qed

lemma net_stale_attempt0:
  "attempt grid_lib net_stale False 0 \<lparr>edg = edges net_stale, deg = [2, 2, 1], n2 = [1], eIDtoRemove = [], out = []\<rparr>
     = Some (Inr \<lparr>edg = edges net_stale, deg = [2, 2, 1], n2 = [1], eIDtoRemove = [], out = []\<rparr>)"
proof -
  have "first_edges grid_lib net_stale (edges net_stale) 0 = Inr None" by code_simp
  then show ?thesis by (simp add: attempt_def)
qed

lemma net_stale_attempt1:
  "attempt grid_lib net_stale False 1 \<lparr>edg = edges net_stale, deg = [2, 2, 1], n2 = [], eIDtoRemove = [], out = []\<rparr>
     = None"
proof -
  have fe: "first_edges grid_lib net_stale (edges net_stale) 1 = Inr (Some (hd (edges net_stale), last (edges net_stale)))"
    by code_simp
  have o: "other_end (hd (edges net_stale)) 1 = 0" "other_end (last (edges net_stale)) 1 = 2"
    "eid (last (edges net_stale)) = 1"
    by code_simp+
  show ?thesis
    by (simp add: attempt_def fe o net_stale_walk Let_def)
qed

text \<open>
  Claim C2: \<open>merge_2\<close> terminates on every input network; the pending set strictly
  decreases, and the visited-set guard bounds each walk, so that no walk loops forever
  even on malformed input.  The pending set does decrease (it is the measure of
  \<open>merge_loop\<close>), and the guard \<open>nextNode in pos_0_deg\<close> is there.  But when the
  index finds no edge other than the current one at a frontier node of degree 2,
  \<open>min\<close> raises, the bare \<open>except\<close> runs \<open>continue\<close>, and the loop repeats with
  every variable unchanged.  The theorem evaluates \<open>merge_2\<close> on a chain of three nodes
  whose degree column is \<open>[2, 2, 1]\<close> (the first node has one edge only): the walk
  from node 1 towards node 0 does not return, and neither does \<open>merge_2\<close>.
\<close>

theorem merge_2_stale_degree:
  "merge_2 grid_lib False net_stale = None"
proof -
  have d: "degree net_stale = Some [2, 2, 1]" by (simp add: net_stale_def)
  have ids: "emap (iloc (map nid (nodes net_stale))) (filter (\<lambda>i. [2, 2, 1 :: int] ! i = 2) [0 ..< length [2, 2, 1 :: int]])
        = Inr [0, 1]" by code_simp
  have r: "remdups [0, 1 :: int] = [0, 1]" by simp
  have loop: "merge_loop grid_lib net_stale False
     \<lparr>edg = edges net_stale, deg = [2, 2, 1], n2 = [0, 1], eIDtoRemove = [], out = []\<rparr> = None"
    apply (subst merge_loop.simps)
    apply (simp add: net_stale_attempt0)
    apply (subst merge_loop.simps)
    apply (simp add: net_stale_attempt1)
    done
  show ?thesis
    by (simp only: merge_2_def d option.case sum.case prod.case ids r loop)
qed

text \<open>
  Claim C5 as stated: a degenerate attempt changes nothing and the event is reported.
  On the two nodes joined by two edges both directions from node 0 lead to node 1; the
  attempt returns the state it was given, and with \<open>print_err\<close> set the whole run
  prints nothing.
\<close>

theorem degenerate_attempt_not_reported:
  "degenerate grid_lib net_parallel st_parallel 0 \<and>
   out st_parallel = [] \<and>
   attempt grid_lib net_parallel True 0 st_parallel = Some (Inr st_parallel) \<and>
   merge_2 grid_lib True net_parallel = Some (Inr ([], net_parallel))"
  by code_simp

text \<open>
  Claim C5, amended: a degenerate attempt leaves the edge table, the degree array and
  the list of edges to remove unchanged, and the pending set no longer than before.
  Nothing is printed when both directions lead to the same node, and a failed merge of
  the geometries is printed only under \<open>print_err\<close>.  The attempt returns (the loop
  goes on) except in one case: under \<open>print_err\<close>, after a failed merge, the printed
  line reads the geometry of the row labelled with the id of the first edge, and when no
  row has that label the attempt raises \<open>KeyError\<close>.
\<close>

theorem degenerate_attempt_changes_nothing:
  fixes L :: "('g, 's, 'd::linorder) geolib"
  assumes "degenerate L network st nodeID"
  shows "if print_err \<and> merge_fails L network st nodeID \<and> report_raises L network st nodeID
         then attempt L network print_err nodeID st = Some (Inl KeyError)
         else (\<exists>st1 k t. attempt L network print_err nodeID st = Some (Inr st1) \<and>
                 edg st1 = edg st \<and> deg st1 = deg st \<and> eIDtoRemove st1 = eIDtoRemove st \<and>
                 length (n2 st1) \<le> length (n2 st) \<and>
                 out st1 = out st @ (if print_err \<and> merge_fails L network st nodeID
                                     then [Failed_to_merge k t] else []))"
proof -
  from assms obtain e1 e2 where fe: "first_edges L network (edg st) nodeID = Inr (Some (e1, e2))"
    by (auto simp: degenerate_def same_next_def merge_fails_def merged_geometry_def
             split: sum.splits option.splits prod.splits)
  have rr: "report_raises L network st nodeID = isl (at_geometry (edg st) (eid e1))"
    using fe by (simp add: report_raises_def)
  show ?thesis
  proof (cases "other_end e1 nodeID = other_end e2 nodeID")
    case True
    then have a: "attempt L network print_err nodeID st = Some (Inr st)"
      using fe by (simp add: attempt_def)
    have "\<not> merge_fails L network st nodeID"
      using fe True by (simp add: merge_fails_def merged_geometry_def)
    then show ?thesis using a by simp
  next
    case False
    let ?w0 = "\<lparr>edgePath = e1, nextNode = other_end e1 nodeID, pos_0_deg = [nodeID],
                pending = n2 st, newEdge = [geometry e1, geometry e2],
                possibly_delete = [eid e2]\<rparr>"
    have ns: "\<not> same_next L network st nodeID" using fe False by (simp add: same_next_def)
    then have mf: "merge_fails L network st nodeID" using assms by (simp add: degenerate_def)
    then obtain w1 w2 where
      w1: "walk L network (edg st) (deg st) (\<lambda>_. other_end e2 nodeID) ?w0 = Some (Inr w1)"
      and w2: "walk L network (edg st) (deg st) (\<lambda>n. n)
                 (w1\<lparr>edgePath := e2, nextNode := other_end e2 nodeID\<rparr>) = Some (Inr w2)"
      and ty: "get_type_id L (line_merge_multi L (newEdge w2)) \<noteq> 1"
      using fe False
      by (auto simp: merge_fails_def merged_geometry_def split: option.splits sum.splits)
    have a: "attempt L network print_err nodeID st
               = Some (finish L print_err (eid e1) (nextNode w1) w2 st)"
      using fe False w1 w2 by (simp add: attempt_def Let_def)
    have "length (pending w2) \<le> length (pending (w1\<lparr>edgePath := e2, nextNode := other_end e2 nodeID\<rparr>))"
      by (rule walk_pending[OF w2])
    moreover have "length (pending w1) \<le> length (pending ?w0)" by (rule walk_pending[OF w1])
    ultimately have l: "length (pending w2) \<le> length (n2 st)" by simp
    show ?thesis
    proof (cases print_err)
      case False
      let ?st1 = "st\<lparr>n2 := pending w2\<rparr>"
      have "attempt L network print_err nodeID st = Some (Inr ?st1)"
        using a ty False by (simp add: finish_def Let_def)
      then show ?thesis using l False by simp
    next
      case True
      show ?thesis
      proof (cases "at_geometry (edg st) (eid e1)")
        case (Inl e)
        then have "e = KeyError" by (auto simp: at_geometry_def split: if_splits)
        then have "attempt L network print_err nodeID st = Some (Inl KeyError)"
          using a ty True Inl by (simp add: finish_def Let_def)
        then show ?thesis using True mf rr Inl by simp
      next
        case (Inr g)
        let ?st1 = "st\<lparr>n2 := pending w2,
                       out := out st @ [Failed_to_merge (eid e1) (get_type_id L g)]\<rparr>"
        have a1: "attempt L network print_err nodeID st = Some (Inr ?st1)"
          using a ty True Inr by (simp add: finish_def Let_def)
        have nr: "\<not> report_raises L network st nodeID" using rr Inr by simp
        have "\<exists>st1 k t. attempt L network print_err nodeID st = Some (Inr st1) \<and>
                 edg st1 = edg st \<and> deg st1 = deg st \<and> eIDtoRemove st1 = eIDtoRemove st \<and>
                 length (n2 st1) \<le> length (n2 st) \<and>
                 out st1 = out st @ (if print_err \<and> merge_fails L network st nodeID
                                     then [Failed_to_merge k t] else [])"
          by (rule exI[of _ ?st1], rule exI[of _ "eid e1"], rule exI[of _ "get_type_id L g"])
             (use a1 l mf True in simp)
        then show ?thesis using nr by simp
      qed
    qed
  qed
qed

theorem degenerate_attempt_changes_nothing_witness:
  "degenerate grid_lib net_tee st_tee 0 \<and>
   (if True \<and> merge_fails grid_lib net_tee st_tee 0 \<and> report_raises grid_lib net_tee st_tee 0
    then attempt grid_lib net_tee True 0 st_tee = Some (Inl KeyError)
    else (\<exists>st1 k t. attempt grid_lib net_tee True 0 st_tee = Some (Inr st1) \<and>
            edg st1 = edg st_tee \<and> deg st1 = deg st_tee \<and> eIDtoRemove st1 = eIDtoRemove st_tee \<and>
            length (n2 st1) \<le> length (n2 st_tee) \<and>
            out st1 = out st_tee @ (if True \<and> merge_fails grid_lib net_tee st_tee 0
                                    then [Failed_to_merge k t] else [])))"
proof -
  have h: "degenerate grid_lib net_tee st_tee 0" by code_simp
  show ?thesis by (rule conjI [OF h degenerate_attempt_changes_nothing [OF h]])
qed

text \<open>
  The same attempt, evaluated: the merge fails and one line is printed, with the type id
  1 of the geometry of row 0.  When the edge ids are 5 and 6 there is no row labelled 5:
  under \<open>print_err\<close> the attempt raises, and without it the attempt returns.
\<close>

lemma attempt_net_tee:
  "merge_fails grid_lib net_tee st_tee 0 \<and> \<not> report_raises grid_lib net_tee st_tee 0 \<and>
   attempt grid_lib net_tee True 0 st_tee = Some (Inr (st_tee\<lparr>out := [Failed_to_merge 0 1]\<rparr>))"
  by code_simp

lemma attempt_net_tee_ids:
  "merge_fails grid_lib net_tee_ids st_tee_ids 0 \<and> report_raises grid_lib net_tee_ids st_tee_ids 0 \<and>
   attempt grid_lib net_tee_ids True 0 st_tee_ids = Some (Inl KeyError) \<and>
   attempt grid_lib net_tee_ids False 0 st_tee_ids = Some (Inr st_tee_ids)"
  by code_simp

text \<open>
  A network with a degree column in which no degree is 2 and every degree is positive
  comes back from \<open>merge_2\<close> as it went in, and nothing is printed.
\<close>

lemma merge_2_no_degree_2:
  fixes L :: "('g, 's, 'd::linorder) geolib" and network :: "('g node, ('g, 'a) edge) network"
  assumes d: "degree network = Some d"
    and len: "length d = length (nodes network)"
    and no2: "2 \<notin> set d"
    and pos: "\<forall>x\<in>set d. 0 < x"
  shows "merge_2 L print_err network = Some (Inr ([], network))"
proof -
  have f: "filter (\<lambda>i. d ! i = 2) [0 ..< length d] = []"
  proof -
    have "d ! i \<noteq> 2" if "i < length d" for i
      using no2 nth_mem[OF that] by metis
    then show ?thesis by (simp add: filter_empty_conv)
  qed
  have loop: "merge_loop L network print_err
          \<lparr>edg = edges network, deg = d, n2 = [], eIDtoRemove = [], out = []\<rparr>
        = Some (Inr \<lparr>edg = edges network, deg = d, n2 = [], eIDtoRemove = [], out = []\<rparr>)"
    by (subst merge_loop.simps) simp
  have keep: "filter (\<lambda>(n, y). 0 < y) (zip (nodes network) d) = zip (nodes network) d"
    using pos by (auto simp: filter_id_conv dest: set_zip_rightD)
  have "merge_2 L print_err network =
      Some (Inr ([], \<lparr>nodes = nodes network, degree = Some d, edges = edges network\<rparr>))"
    apply (simp only: merge_2_def d option.case sum.case prod.case f emap.simps remdups.simps loop)
    apply (simp add: keep len Let_def)
    done
  then show ?thesis using d by simp
qed

lemma merge_2_output_degrees:
  fixes L :: "('g, 's, 'd::linorder) geolib" and network0 :: "('g node, ('g, 'a) edge) network"
  assumes "merge_2 L print_err network0 = Some (Inr (out1, network))"
  shows "\<exists>d. degree network = Some d \<and> length d = length (nodes network) \<and> (\<forall>x\<in>set d. 0 < x)"
  using assms
  by (auto simp: merge_2_def Let_def split: sum.splits option.splits prod.splits)

text \<open>
  Claim C7: \<open>merge_2\<close> on an already-contracted network, that is on a network that
  \<open>merge_2\<close> returned (it has a degree column) and in which no node of degree 2
  remains, returns that network: the edge table and the node table are unchanged.
\<close>

theorem merge_2_idempotent:
  fixes L :: "('g, 's, 'd::linorder) geolib" and network0 :: "('g node, ('g, 'a) edge) network"
  assumes "merge_2 L print_err network0 = Some (Inr (out1, network))"
    and "2 \<notin> set (the (degree network))"
  shows "merge_2 L print_err network = Some (Inr ([], network))"
proof -
  from merge_2_output_degrees[OF assms(1)] obtain d where
    d: "degree network = Some d" "length d = length (nodes network)" "\<forall>x\<in>set d. 0 < x" by blast
  from assms(2) d(1) have "2 \<notin> set d" by simp
  from merge_2_no_degree_2[OF d(1) d(2) this d(3)] show ?thesis .
qed

theorem merge_2_idempotent_witness:
  "merge_2 grid_lib True net_chain = Some (Inr ([], net_chain_merged)) \<and>
   2 \<notin> set (the (degree net_chain_merged)) \<and>
   merge_2 grid_lib True net_chain_merged = Some (Inr ([], net_chain_merged))"
proof -
  have h1: "merge_2 grid_lib True net_chain = Some (Inr ([], net_chain_merged))" by code_simp
  have h2: "2 \<notin> set (the (degree net_chain_merged))" by (simp add: net_chain_merged_def)
  from merge_2_idempotent [OF h1 h2] h1 h2 show ?thesis by simp
qed

subsection \<open>Roundabout collapser\<close>

text \<open>
  Claim C6 as stated: one ring touched by exactly two external edges gives exactly two
  modified edges.  The pending replacements are tracked by \<open>osm_id\<close>; in
  \<open>net_ring_same_key\<close> the two external edges share it.  The query lists the edge on
  the left (position 2) before the edge on the right (position 1); the second one
  replaces the entry of the first: the result holds a single new row, with the
  \<open>highway\<close> of the edge on the right and the line of the edge on the left with the
  centroid behind it twice, and no row ends the edge on the right at the centroid.
\<close>

theorem clean_roundabouts_same_key:
  "find_roundabouts grid_lib net_ring_same_key = [(0, hd (edges net_ring_same_key))] \<and>
   filter (\<lambda>i. i \<noteq> 0)
     (buffer_query grid_lib (map wgeometry (edges net_ring_same_key))
        (wgeometry (hd (edges net_ring_same_key)))) = [2, 1] \<and>
   clean_roundabouts grid_lib net_ring_same_key =
     Inr \<lparr>nodes = [], degree = None,
          edges = [\<lparr>osm_id = 9, highway = ''tertiary'', wgeometry = LineString [(10, 10), (11, 10)]\<rparr>,
                   \<lparr>osm_id = 7, highway = ''primary'',
                    wgeometry = LineString [(- 3, 1), (0, 1), (1, 1), (1, 1)]\<rparr>]\<rparr>"
  by code_simp

text \<open>
  Claim C6, amended: when exactly one edge is a ring (at position \<open>r\<close>), exactly two
  other edges meet it (at positions \<open>i\<close> and \<open>j\<close>, in the order of the query) and
  these two have different \<open>osm_id\<close>, \<open>clean_roundabouts\<close> returns the rows at the
  other positions, none of which is a ring, followed by two new rows with the
  \<open>osm_id\<close> and \<open>highway\<close> of the two edges.  The geometry of each is the line
  through the coordinates of the centroid of the ring followed by the vertices of the
  edge when the first vertex of the edge is strictly closer to the centroid than the
  last one, and through the vertices of the edge followed by the coordinates of the
  centroid otherwise: the new line ends at the centroid, on the side of the closer end.
\<close>

theorem clean_roundabouts_one_ring:
  fixes L :: "('g, 's, 'd::linorder) geolib" and network :: "('n, ('g, 'k) way) network"
  assumes ring: "find_roundabouts L network = [(r, ring)]"
    and self: "r \<in> set (buffer_query L (map wgeometry (edges network)) (wgeometry ring))"
    and hits: "filter (\<lambda>i. i \<noteq> r) (buffer_query L (map wgeometry (edges network)) (wgeometry ring)) = [i, j]"
    and inside: "i < length (edges network)" "j < length (edges network)"
    and keys: "osm_id (edges network ! i) \<noteq> osm_id (edges network ! j)"
  shows "clean_roundabouts L network =
           Inr \<lparr>nodes = nodes network, degree = degree network,
                edges = map snd (filter (\<lambda>(k, edge). k \<notin> {r, i, j}) (enumerate 0 (edges network)))
                   @ map (\<lambda>edge.
                            \<lparr>osm_id = osm_id edge, highway = highway edge,
                             wgeometry = linestrings L
                               (if distance L (get_point L (wgeometry edge) 0) (centroid L (wgeometry ring))
                                     < distance L (get_point L (wgeometry edge) (- 1)) (centroid L (wgeometry ring))
                                then get_coordinates L (centroid L (wgeometry ring))
                                       @ get_coordinates L (wgeometry edge)
                                else get_coordinates L (wgeometry edge)
                                       @ get_coordinates L (centroid L (wgeometry ring)))\<rparr>)
                       [edges network ! i, edges network ! j]\<rparr>
         \<and> (\<forall>edge \<in> set (map snd (filter (\<lambda>(k, edge). k \<notin> {r, i, j}) (enumerate 0 (edges network)))).
               \<not> is_ring L (wgeometry edge))"
proof -
  let ?c = "centroid L (wgeometry ring)"
  let ?ei = "edges network ! i" and ?ej = "edges network ! j"
  let ?new = "\<lambda>edge. \<lparr>osm_id = osm_id edge, highway = highway edge,
                             wgeometry = linestrings L
                               (if distance L (get_point L (wgeometry edge) 0) ?c
                                     < distance L (get_point L (wgeometry edge) (- 1)) ?c
                                then get_coordinates L ?c @ get_coordinates L (wgeometry edge)
                                else get_coordinates L (wgeometry edge) @ get_coordinates L ?c)\<rparr>"
  have snap: "snap_to_centroid L ?c g
      = linestrings L (if distance L (get_point L g 0) ?c < distance L (get_point L g (- 1)) ?c
                       then get_coordinates L ?c @ get_coordinates L g
                       else get_coordinates L g @ get_coordinates L ?c)" for g
    by (simp add: snap_to_centroid_def Let_def)
  have s1: "reroute_edge L ?c (edges network) i ([], [], [r]) = Inr ([?new ?ei], [osm_id ?ei], [r, i])"
    using inside(1) by (simp add: reroute_edge_def iloc_def Let_def snap)
  have s2: "reroute_edge L ?c (edges network) j ([?new ?ei], [osm_id ?ei], [r, i])
              = Inr ([?new ?ei, ?new ?ej], [osm_id ?ei, osm_id ?ej], [r, i, j])"
    using inside(2) keys by (simp add: reroute_edge_def iloc_def Let_def snap)
  have c: "collapse_roundabout L (edges network) (r, ring) ([], [], [])
             = Inr ([?new ?ei, ?new ?ej], [osm_id ?ei, osm_id ?ej], [r, i, j])"
    using self by (simp add: collapse_roundabout_def Let_def hits s1 s2)
  have first: "clean_roundabouts L network =
           Inr \<lparr>nodes = nodes network, degree = degree network,
                edges = map snd (filter (\<lambda>(k, edge). k \<notin> {r, i, j}) (enumerate 0 (edges network)))
                   @ map ?new [?ei, ?ej]\<rparr>"
    by (simp add: clean_roundabouts_def ring c)
  have second: "\<not> is_ring L (wgeometry edge)"
    if "edge \<in> set (map snd (filter (\<lambda>(k, edge). k \<notin> {r, i, j}) (enumerate 0 (edges network))))" for edge
  proof
    assume ir: "is_ring L (wgeometry edge)"
    from that obtain k where k: "(k, edge) \<in> set (enumerate 0 (edges network))" "k \<noteq> r" by auto
    then have "(k, edge) \<in> set (find_roundabouts L network)" using ir by (simp add: find_roundabouts_def)
    then show False using ring k(2) by simp
  qed
  show ?thesis using first second by blast
qed

text \<open>
  On \<open>net_ring\<close> the query lists the edge on the left (position 2) before the edge on
  the right (position 1).  The centroid (1, 1) comes behind the vertices of the first,
  whose last vertex is the closer one, and in front of the vertices of the second.
\<close>

theorem clean_roundabouts_one_ring_witness:
  "find_roundabouts grid_lib net_ring = [(0, hd (edges net_ring))] \<and>
   0 \<in> set (buffer_query grid_lib (map wgeometry (edges net_ring)) (wgeometry (hd (edges net_ring)))) \<and>
   filter (\<lambda>i. i \<noteq> 0)
     (buffer_query grid_lib (map wgeometry (edges net_ring)) (wgeometry (hd (edges net_ring)))) = [2, 1] \<and>
   2 < length (edges net_ring) \<and> 1 < length (edges net_ring) \<and>
   osm_id (edges net_ring ! 2) \<noteq> osm_id (edges net_ring ! 1) \<and>
   clean_roundabouts grid_lib net_ring =
     Inr \<lparr>nodes = [], degree = None,
          edges = [\<lparr>osm_id = 9, highway = ''tertiary'', wgeometry = LineString [(10, 10), (11, 10)]\<rparr>,
                   \<lparr>osm_id = 8, highway = ''tertiary'',
                    wgeometry = LineString [(- 3, 1), (0, 1), (1, 1)]\<rparr>,
                   \<lparr>osm_id = 7, highway = ''primary'',
                    wgeometry = LineString [(1, 1), (2, 1), (5, 1)]\<rparr>]\<rparr>"
proof -
  have h1: "find_roundabouts grid_lib net_ring = [(0, hd (edges net_ring))]" by code_simp
  have h2: "0 \<in> set (buffer_query grid_lib (map wgeometry (edges net_ring)) (wgeometry (hd (edges net_ring))))"
    by code_simp
  have h3: "filter (\<lambda>i. i \<noteq> 0)
     (buffer_query grid_lib (map wgeometry (edges net_ring)) (wgeometry (hd (edges net_ring)))) = [2, 1]"
    by code_simp
  have h4: "2 < length (edges net_ring)" by code_simp
  have h5: "1 < length (edges net_ring)" by code_simp
  have h6: "osm_id (edges net_ring ! 2) \<noteq> osm_id (edges net_ring ! 1)" by code_simp
  let ?c = "centroid grid_lib (wgeometry (hd (edges net_ring)))"
  let ?sym = "Inr \<lparr>nodes = nodes net_ring, degree = degree net_ring,
                edges = map snd (filter (\<lambda>(k, edge). k \<notin> {0, 2, 1}) (enumerate 0 (edges net_ring)))
                   @ map (\<lambda>edge.
                            \<lparr>osm_id = osm_id edge, highway = highway edge,
                             wgeometry = linestrings grid_lib
                               (if distance grid_lib (get_point grid_lib (wgeometry edge) 0) ?c
                                     < distance grid_lib (get_point grid_lib (wgeometry edge) (- 1)) ?c
                                then get_coordinates grid_lib ?c @ get_coordinates grid_lib (wgeometry edge)
                                else get_coordinates grid_lib (wgeometry edge) @ get_coordinates grid_lib ?c)\<rparr>)
                       [edges net_ring ! 2, edges net_ring ! 1]\<rparr>
             :: error + (grid_geom, (grid_geom, int) way) network"
  have "clean_roundabouts grid_lib net_ring = ?sym"
    using clean_roundabouts_one_ring [OF h1 h2 h3 h4 h5 h6] by (rule conjunct1)
  also have "?sym =
     Inr \<lparr>nodes = [], degree = None,
          edges = [\<lparr>osm_id = 9, highway = ''tertiary'', wgeometry = LineString [(10, 10), (11, 10)]\<rparr>,
                   \<lparr>osm_id = 8, highway = ''tertiary'',
                    wgeometry = LineString [(- 3, 1), (0, 1), (1, 1)]\<rparr>,
                   \<lparr>osm_id = 7, highway = ''primary'',
                    wgeometry = LineString [(1, 1), (2, 1), (5, 1)]\<rparr>]\<rparr>"
    by code_simp
  finally show ?thesis using h1 h2 h3 h4 h5 h6 by simp
qed

subsection \<open>Pipeline\<close>



lemma renumber_ids:
  "ids_are_positions (map (\<lambda>(e, i). e\<lparr>eid := i\<rparr>) (zip es (map int [0 ..< length es])))"
  unfolding ids_are_positions_def by (rule nth_equalityI) simp_all

lemma renumber_refs:
  "refs_among (map (\<lambda>(e, i). e\<lparr>eid := i\<rparr>) (zip (filter P es) is)) es"
  unfolding refs_among_def by (auto dest!: set_zip_leftD)



lemma drop_hanging_nodes_edges:
  fixes L :: "('g, 's, 'd::linorder) geolib"
  assumes "drop_hanging_nodes L tol network = Inr (out1, net1)"
  shows "refs_among (edges net1) (edges network) \<and> ids_are_positions (edges net1)
         \<and> nodes net1 = nodes network"
proof -
  from assms obtain ds where
    "edges net1 = map (\<lambda>(e, i). e\<lparr>eid := i\<rparr>)
        (zip (filter (\<lambda>e. eid e \<notin> set ds) (edges network))
             (map int [0 ..< length (filter (\<lambda>e. eid e \<notin> set ds) (edges network))]))"
    and "nodes net1 = nodes network"
    by (auto simp: drop_hanging_nodes_def Let_def ebind_def
             split: sum.splits option.splits prod.splits if_splits)
  then show ?thesis using renumber_ids renumber_refs by metis
qed


lemma iloc_in: "iloc rows i = Inr r \<Longrightarrow> r \<in> set rows"
  by (auto simp: iloc_def split: if_splits)

lemma py_min_by_in: "py_min_by key xs = Inr m \<Longrightarrow> m \<in> set xs"
  using fold_min_by_in[of key "tl xs" "hd xs"]
  by (cases xs) (auto simp: py_min_by_def)

lemma find_closest_2_edges_in:
  fixes L :: "('g, 's, 'd::linorder) geolib"
  assumes "find_closest_2_edges L edgeIDs es g = Inr (e1, e2)"
  shows "e1 \<in> set es \<and> e2 \<in> set es"
proof -
  from assms obtain rows rows2 where
    r: "emap (iloc es) edgeIDs = Inr rows"
    and m1: "py_min_by (\<lambda>match. distance L g (geometry match)) rows = Inr e1"
    and r2: "emap (iloc es) (filter (\<lambda>i. int i \<noteq> eid e1) edgeIDs) = Inr rows2"
    and m2: "py_min_by (\<lambda>match. distance L g (geometry match)) rows2 = Inr e2"
    by (auto simp: find_closest_2_edges_def ebind_def split: sum.splits if_splits)
  show ?thesis
    using emap_iloc_subset[OF r] emap_iloc_subset[OF r2] py_min_by_in[OF m1] py_min_by_in[OF m2]
    by blast
qed

lemma first_edges_in:
  fixes L :: "('g, 's, 'd::linorder) geolib"
  assumes "first_edges L network es nodeID = Inr (Some (e1, e2))"
  shows "e1 \<in> set es \<and> e2 \<in> set es"
proof -
  from assms obtain g where
    b: "(let eID = edg_sindex_query L network g
        in if length eID > 2
           then ebind (find_closest_2_edges L eID es g) (\<lambda>p. Inr (Some p))
           else if length eID < 2 then Inr None
           else ebind (iloc es (eID ! 0)) (\<lambda>edgePath1.
                ebind (iloc es (eID ! 1)) (\<lambda>edgePath2.
                  Inr (Some (edgePath1, edgePath2))))) = Inr (Some (e1, e2))"
    unfolding first_edges_def by (cases "nodGeom network nodeID") simp_all
  let ?eID = "edg_sindex_query L network g"
  show ?thesis
  proof (cases "length ?eID > 2")
    case True
    with b have "find_closest_2_edges L ?eID es g = Inr (e1, e2)"
      by (cases "find_closest_2_edges L ?eID es g") (simp_all add: Let_def)
    then show ?thesis by (rule find_closest_2_edges_in)
  next
    case False
    with b have c: "ebind (iloc es (?eID ! 0)) (\<lambda>edgePath1.
                ebind (iloc es (?eID ! 1)) (\<lambda>edgePath2.
                  Inr (Some (edgePath1, edgePath2)))) = Inr (Some (e1, e2))"
      by (simp add: Let_def split: if_splits)
    then have "iloc es (?eID ! 0) = Inr e1" "iloc es (?eID ! 1) = Inr e2"
      by (cases "iloc es (?eID ! 0)"; cases "iloc es (?eID ! 1)"; simp)+
    then show ?thesis by (simp add: iloc_in)
  qed
qed




lemma set_edge_Inr:
  assumes "set_edge es label g f t = Inr es1"
  shows "es1 = es[nat label := (es ! nat label)\<lparr>geometry := g, from_id := f, to_id := t\<rparr>]
         \<and> nat label < length es"
proof (cases "0 \<le> label \<and> label < int (length es)")
  case True
  then have l: "nat label < length es" by (simp add: nat_less_iff)
  from True assms have "es1 = es[nat label := (es ! nat label)\<lparr>geometry := g, from_id := f, to_id := t\<rparr>]"
    unfolding set_edge_def by simp
  then show ?thesis using l by simp
next
  case False
  then have "set_edge es label g f t = Inl NewRowLabel" unfolding set_edge_def by (rule if_not_P)
  then show ?thesis using assms by simp
qed


lemma set_edge_positions:
  assumes s: "set_edge es label g f t = Inr es1" and p: "ids_are_positions es"
  shows "ids_are_positions es1"
proof -
  let ?r = "(es ! nat label)\<lparr>geometry := g, from_id := f, to_id := t\<rparr>"
  have es1: "es1 = es[nat label := ?r]" and l: "nat label < length es"
    using set_edge_Inr[OF s] by simp_all
  have "map eid es1 = (map eid es)[nat label := eid ?r]" unfolding es1 by (rule map_update)
  also have "eid ?r = map eid es ! nat label" using l by simp
  also have "(map eid es)[nat label := map eid es ! nat label] = map eid es" by (rule list_update_id)
  finally have m: "map eid es1 = map eid es" .
  have "length es1 = length es" unfolding es1 by simp
  then show ?thesis using p m unfolding ids_are_positions_def by simp
qed




lemma finish_cases:
  assumes f: "finish L print_err info nextNode1 w st = Inr st1"
  shows "edg st1 = edg st \<or>
         set_edge (edg st) info (line_merge_multi L (newEdge w)) nextNode1 (nextNode w) = Inr (edg st1)"
proof (cases "get_type_id L (line_merge_multi L (newEdge w)) = 1")
  case True
  with f have "ebind (set_edge (edg st) info (line_merge_multi L (newEdge w)) nextNode1 (nextNode w)) (\<lambda>edg1.
              ebind (efold np_zero (pos_0_deg w) (deg st)) (\<lambda>deg1.
                Inr (st\<lparr>edg := edg1, deg := deg1, n2 := pending w,
                       eIDtoRemove := eIDtoRemove st @ possibly_delete w\<rparr>))) = Inr st1"
    by (simp add: finish_def Let_def)
  then obtain edg1 deg1 where s: "set_edge (edg st) info (line_merge_multi L (newEdge w)) nextNode1 (nextNode w) = Inr edg1"
    and e: "st1 = st\<lparr>edg := edg1, deg := deg1, n2 := pending w,
                       eIDtoRemove := eIDtoRemove st @ possibly_delete w\<rparr>"
    by (cases "set_edge (edg st) info (line_merge_multi L (newEdge w)) nextNode1 (nextNode w)";
        cases "efold np_zero (pos_0_deg w) (deg st)") auto
  have "edg st1 = edg1" unfolding e by simp
  then show ?thesis using s by simp
next
  case False
  have "edg st1 = edg st"
  proof (cases print_err)
    case True
    with f False show ?thesis
      by (cases "at_geometry (edg st) info") (auto simp: finish_def Let_def)
  next
    case pe: False
    with f False show ?thesis by (auto simp: finish_def Let_def)
  qed
  then show ?thesis by simp
qed

lemma attempt_cases:
  fixes L :: "('g, 's, 'd::linorder) geolib"
  assumes a: "attempt L network print_err nodeID st = Some (Inr st1)"
  shows "edg st1 = edg st \<or>
         (\<exists>e1 e2 w1 w2.
            first_edges L network (edg st) nodeID = Inr (Some (e1, e2)) \<and>
            walk L network (edg st) (deg st) (\<lambda>_. other_end e2 nodeID)
              \<lparr>edgePath = e1, nextNode = other_end e1 nodeID, pos_0_deg = [nodeID],
               pending = n2 st, newEdge = [geometry e1, geometry e2],
               possibly_delete = [eid e2]\<rparr> = Some (Inr w1) \<and>
            walk L network (edg st) (deg st) (\<lambda>n. n)
              (w1\<lparr>edgePath := e2, nextNode := other_end e2 nodeID\<rparr>) = Some (Inr w2) \<and>
            finish L print_err (eid e1) (nextNode w1) w2 st = Inr st1)"
proof (cases "first_edges L network (edg st) nodeID")
  case (Inl e)
  with a show ?thesis by (simp add: attempt_def)
next
  case (Inr p)
  show ?thesis
  proof (cases p)
    case None
    with a Inr show ?thesis by (simp add: attempt_def)
  next
    case (Some ee)
    obtain e1 e2 where ee: "ee = (e1, e2)" by (cases ee)
    have fe: "first_edges L network (edg st) nodeID = Inr (Some (e1, e2))" using Inr Some ee by simp
    show ?thesis
    proof (cases "other_end e1 nodeID = other_end e2 nodeID")
      case True
      with a fe show ?thesis by (simp add: attempt_def)
    next
      case False
      let ?w0 = "\<lparr>edgePath = e1, nextNode = other_end e1 nodeID, pos_0_deg = [nodeID],
                        pending = n2 st, newEdge = [geometry e1, geometry e2],
                        possibly_delete = [eid e2]\<rparr>"
      from a fe False obtain w1 w2 where
        w1: "walk L network (edg st) (deg st) (\<lambda>_. other_end e2 nodeID) ?w0 = Some (Inr w1)"
        and w2: "walk L network (edg st) (deg st) (\<lambda>n. n) (w1\<lparr>edgePath := e2, nextNode := other_end e2 nodeID\<rparr>) = Some (Inr w2)"
        and f: "finish L print_err (eid e1) (nextNode w1) w2 st = Inr st1"
        by (auto simp: attempt_def Let_def split: option.splits sum.splits)
      show ?thesis using fe w1 w2 f by blast
    qed
  qed
qed

lemma attempt_positions:
  fixes L :: "('g, 's, 'd::linorder) geolib"
  assumes a: "attempt L network print_err nodeID st = Some (Inr st1)"
    and ps: "ids_are_positions (edg st)"
  shows "ids_are_positions (edg st1)"
  using attempt_cases[OF a]
proof
  assume "edg st1 = edg st" then show ?thesis using ps by simp
next
  assume "\<exists>e1 e2 w1 w2.
            first_edges L network (edg st) nodeID = Inr (Some (e1, e2)) \<and>
            walk L network (edg st) (deg st) (\<lambda>_. other_end e2 nodeID)
              \<lparr>edgePath = e1, nextNode = other_end e1 nodeID, pos_0_deg = [nodeID],
               pending = n2 st, newEdge = [geometry e1, geometry e2],
               possibly_delete = [eid e2]\<rparr> = Some (Inr w1) \<and>
            walk L network (edg st) (deg st) (\<lambda>n. n)
              (w1\<lparr>edgePath := e2, nextNode := other_end e2 nodeID\<rparr>) = Some (Inr w2) \<and>
            finish L print_err (eid e1) (nextNode w1) w2 st = Inr st1"
  then obtain e1 e2 w1 w2 where
    fe: "first_edges L network (edg st) nodeID = Inr (Some (e1, e2))"
    and w1: "walk L network (edg st) (deg st) (\<lambda>_. other_end e2 nodeID)
              \<lparr>edgePath = e1, nextNode = other_end e1 nodeID, pos_0_deg = [nodeID],
               pending = n2 st, newEdge = [geometry e1, geometry e2],
               possibly_delete = [eid e2]\<rparr> = Some (Inr w1)"
    and w2: "walk L network (edg st) (deg st) (\<lambda>n. n)
              (w1\<lparr>edgePath := e2, nextNode := other_end e2 nodeID\<rparr>) = Some (Inr w2)"
    and f: "finish L print_err (eid e1) (nextNode w1) w2 st = Inr st1" by blast
  from finish_cases[OF f] show ?thesis
  proof
    assume "edg st1 = edg st" then show ?thesis using ps by simp
  next
    assume "set_edge (edg st) (eid e1) (line_merge_multi L (newEdge w2)) (nextNode w1) (nextNode w2) = Inr (edg st1)"
    from set_edge_positions[OF this ps] show ?thesis .
  qed
qed






















text \<open>
  The marker \<open>NewRowLabel\<close> of \<open>set_edge\<close> stands for a write to a label that
  is no row.  No library call and no other stage yields it, and \<open>merge_2\<close> does not
  yield it on a table whose edge ids are the row positions: the representative edge of
  an attempt is a row of the table, and the ids stay the positions through the loop.
\<close>

lemma ebind_new_row:
  "ebind m f = Inl NewRowLabel \<Longrightarrow> m = Inl NewRowLabel \<or> (\<exists>x. m = Inr x \<and> f x = Inl NewRowLabel)"
  by (cases m) auto

lemma emap_new_row: "emap f xs = Inl NewRowLabel \<Longrightarrow> \<exists>x\<in>set xs. f x = Inl NewRowLabel"
proof (induction xs)
  case Nil then show ?case by simp
next
  case (Cons x xs)
  show ?case
  proof (cases "f x")
    case (Inl e) with Cons.prems show ?thesis by simp
  next
    case (Inr y)
    with Cons.prems have "emap f xs = Inl NewRowLabel"
      by (cases "emap f xs") auto
    from Cons.IH[OF this] show ?thesis by auto
  qed
qed

lemma efold_new_row: "efold f xs s = Inl NewRowLabel \<Longrightarrow> \<exists>x\<in>set xs. \<exists>s1. f x s1 = Inl NewRowLabel"
proof (induction xs arbitrary: s)
  case Nil then show ?case by simp
next
  case (Cons x xs)
  show ?case
  proof (cases "f x s")
    case (Inl e) with Cons.prems show ?thesis by auto
  next
    case (Inr s1)
    with Cons.prems have "efold f xs s1 = Inl NewRowLabel" by simp
    from Cons.IH[OF this] show ?thesis by auto
  qed
qed

lemma np_index_no_new_row [simp]: "np_index n i \<noteq> Inl NewRowLabel"
  by (simp add: np_index_def)

lemma library_no_new_row [simp]:
  "py_max xs \<noteq> Inl NewRowLabel"
  "bincount xs n \<noteq> Inl NewRowLabel"
  "np_add a b \<noteq> Inl NewRowLabel"
  "np_dec d i \<noteq> Inl NewRowLabel"
  "np_get d i \<noteq> Inl NewRowLabel"
  "np_zero i d \<noteq> Inl NewRowLabel"
  "iloc rows k \<noteq> Inl NewRowLabel"
  "py_min_by key ys \<noteq> Inl NewRowLabel"
  "nodGeom network j \<noteq> Inl NewRowLabel"
  "at_geometry es l \<noteq> Inl NewRowLabel"
  by (auto simp: py_max_def bincount_def np_add_def np_dec_def np_get_def np_zero_def iloc_def
        py_min_by_def nodGeom_def at_geometry_def
        split: list.splits dest!: ebind_new_row)

lemma calculate_degree_no_new_row [simp]: "calculate_degree network \<noteq> Inl NewRowLabel"
  by (auto simp: calculate_degree_def degree_guard_def Let_def dest!: ebind_new_row split: if_splits)

lemma find_closest_2_edges_no_new_row [simp]:
  "find_closest_2_edges L edgeIDs es g \<noteq> Inl NewRowLabel"
  by (auto simp: find_closest_2_edges_def dest!: ebind_new_row emap_new_row split: if_splits)

lemma first_edges_no_new_row [simp]: "first_edges L network es nodeID \<noteq> Inl NewRowLabel"
  by (auto simp: first_edges_def Let_def dest!: ebind_new_row split: if_splits)

lemma walk_no_new_row:
  fixes L :: "('g, 's, 'd::linorder) geolib" and w :: "('g, 'a) walk_vars"
  shows "walk L network edges_now degs keyOf w \<noteq> Some (Inl NewRowLabel)"
proof
  assume a: "walk L network edges_now degs keyOf w = Some (Inl NewRowLabel)"
  have gen: "walk L' network' edges_now' degs' keyOf' w' = Some r \<Longrightarrow> r = Inl NewRowLabel \<Longrightarrow> False"
    for L' :: "('g, 's, 'd) geolib" and network' edges_now' degs' keyOf' and w' :: "('g, 'a) walk_vars" and r
  proof (induct rule: walk.raw_induct[rotated 1, consumes 1, case_names step])
    case (step wf L' network' edges_now' degs' keyOf' w' r)
    have ih: "wf L' network' edges_now' degs' keyOf' v = Some (Inl NewRowLabel) \<Longrightarrow> False" for v
      using step.hyps(1)[of L' network' edges_now' degs' keyOf' v "Inl NewRowLabel"] by simp
    note body = step.hyps(2)[unfolded step.prems(1)]
    show ?case
    proof (cases "np_get degs' (nextNode w')")
      case (Inl e) with body show ?thesis by simp
    next
      case d: (Inr d)
      show ?thesis
      proof (cases "d \<noteq> 2 \<or> nextNode w' \<in> set (pos_0_deg w')")
        case True
        with body d show ?thesis by (auto split: if_splits)
      next
        case False
        then have d2: "np_get degs' (nextNode w') = Inr 2" and nin: "nextNode w' \<notin> set (pos_0_deg w')"
          using d by auto
        show ?thesis
        proof (cases "nodGeom network' (nextNode w')")
          case (Inl e) with body d2 nin show ?thesis by simp
        next
          case g: (Inr g)
          show ?thesis
          proof (cases "walk_candidate L' network' edges_now' (keyOf' (nextNode w'))
                (filter (\<lambda>i. int i \<noteq> eid (edgePath w')) (edg_sindex_query L' network' g))")
            case (Inl x)
            with body d2 nin g have "wf L' network' edges_now' degs' keyOf' w' = Some (Inl NewRowLabel)" by simp
            from ih[OF this] show ?thesis .
          next
            case e: (Inr e)
            with body d2 nin g have "wf L' network' edges_now' degs' keyOf' (advance w' e) = Some (Inl NewRowLabel)" by simp
            from ih[OF this] show ?thesis .
          qed
        qed
      qed
    qed
  qed
  from gen[OF a] show False by simp
qed

lemma set_edge_no_new_row:
  assumes ps: "ids_are_positions es" and e: "e \<in> set es"
  shows "set_edge es (eid e) g f t \<noteq> Inl NewRowLabel"
proof -
  from e obtain i where i: "i < length es" "es ! i = e" by (auto simp: in_set_conv_nth)
  have "map eid es ! i = map int [0 ..< length es] ! i" using ps by (simp add: ids_are_positions_def)
  then have "eid e = int i" using i by simp
  then show ?thesis using i by (simp add: set_edge_def)
qed

lemma finish_no_new_row:
  assumes ps: "ids_are_positions (edg st)" and e: "e \<in> set (edg st)"
  shows "finish L print_err (eid e) nextNode1 w st \<noteq> Inl NewRowLabel"
  using set_edge_no_new_row[OF ps e]
  by (auto simp: finish_def Let_def dest!: ebind_new_row efold_new_row split: if_splits)

lemma attempt_no_new_row:
  fixes L :: "('g, 's, 'd::linorder) geolib"
  assumes ps: "ids_are_positions (edg st)"
  shows "attempt L network print_err nodeID st \<noteq> Some (Inl NewRowLabel)"
proof (cases "first_edges L network (edg st) nodeID")
  case (Inl e)
  then have "e \<noteq> NewRowLabel" using first_edges_no_new_row[of L network "edg st" nodeID] by auto
  with Inl show ?thesis by (simp add: attempt_def)
next
  case (Inr p)
  show ?thesis
  proof (cases p)
    case None
    with Inr show ?thesis by (simp add: attempt_def)
  next
    case (Some ee)
    obtain e1 e2 where ee: "ee = (e1, e2)" by (cases ee)
    have fe: "first_edges L network (edg st) nodeID = Inr (Some (e1, e2))" using Inr Some ee by simp
    note mem = first_edges_in[OF fe]
    show ?thesis
    proof (cases "other_end e1 nodeID = other_end e2 nodeID")
      case True
      with fe show ?thesis by (simp add: attempt_def)
    next
      case False
      let ?w0 = "\<lparr>edgePath = e1, nextNode = other_end e1 nodeID, pos_0_deg = [nodeID],
                        pending = n2 st, newEdge = [geometry e1, geometry e2],
                        possibly_delete = [eid e2]\<rparr>"
      let ?W1 = "walk L network (edg st) (deg st) (\<lambda>_. other_end e2 nodeID) ?w0"
      have n1: "?W1 \<noteq> Some (Inl NewRowLabel)" by (rule walk_no_new_row)
      show ?thesis
      proof (cases ?W1)
        case None
        with fe False show ?thesis by (simp add: attempt_def Let_def)
      next
        case s1: (Some r1)
        show ?thesis
        proof (cases r1)
          case (Inl x)
          with s1 n1 have "x \<noteq> NewRowLabel" by auto
          with fe False s1 Inl show ?thesis by (simp add: attempt_def Let_def)
        next
          case i1: (Inr w1)
          let ?W2 = "walk L network (edg st) (deg st) (\<lambda>n. n) (w1\<lparr>edgePath := e2, nextNode := other_end e2 nodeID\<rparr>)"
          have n2: "?W2 \<noteq> Some (Inl NewRowLabel)" by (rule walk_no_new_row)
          show ?thesis
          proof (cases ?W2)
            case None
            with fe False s1 i1 show ?thesis by (simp add: attempt_def Let_def)
          next
            case s2: (Some r2)
            show ?thesis
            proof (cases r2)
              case (Inl x)
              with s2 n2 have "x \<noteq> NewRowLabel" by auto
              with fe False s1 i1 s2 Inl show ?thesis by (simp add: attempt_def Let_def)
            next
              case i2: (Inr w2)
              have "attempt L network print_err nodeID st = Some (finish L print_err (eid e1) (nextNode w1) w2 st)"
                using fe False s1 i1 s2 i2 by (simp add: attempt_def Let_def)
              then show ?thesis using finish_no_new_row[OF ps conjunct1[OF mem]] by simp
            qed
          qed
        qed
      qed
    qed
  qed
qed

lemma merge_loop_no_new_row:
  fixes L :: "('g, 's, 'd::linorder) geolib"
  shows "ids_are_positions (edg st) \<Longrightarrow> merge_loop L network print_err st \<noteq> Some (Inl NewRowLabel)"
proof (induction L network print_err st rule: merge_loop.induct)
  case (1 L network print_err st)
  show ?case
  proof (cases "n2 st")
    case Nil
    then show ?thesis by (subst merge_loop.simps) simp
  next
    case (Cons nodeID rest)
    let ?A = "attempt L network print_err nodeID (st\<lparr>n2 := rest\<rparr>)"
    have na: "?A \<noteq> Some (Inl NewRowLabel)" by (rule attempt_no_new_row) (use 1(2) in simp)
    show ?thesis
    proof (cases ?A)
      case None
      then show ?thesis by (subst merge_loop.simps) (simp add: Cons)
    next
      case (Some r)
      show ?thesis
      proof (cases r)
        case (Inl x)
        with Some na have "x \<noteq> NewRowLabel" by auto
        with Some Inl show ?thesis by (subst merge_loop.simps) (simp add: Cons)
      next
        case (Inr st0)
        have a: "?A = Some (Inr st0)" using Some Inr by simp
        have p: "ids_are_positions (edg st0)" by (rule attempt_positions[OF a]) (use 1(2) in simp)
        have "merge_loop L network print_err st0 \<noteq> Some (Inl NewRowLabel)"
          by (rule 1(1)[OF Cons Some Inr p])
        then show ?thesis using a by (subst merge_loop.simps) (simp add: Cons)
      qed
    qed
  qed
qed

lemma merge_2_no_new_row:
  fixes L :: "('g, 's, 'd::linorder) geolib"
  assumes ps: "ids_are_positions (edges network)"
  shows "merge_2 L print_err network \<noteq> Some (Inl NewRowLabel)"
proof
  assume m: "merge_2 L print_err network = Some (Inl NewRowLabel)"
  let ?D = "(case degree network of None \<Rightarrow> calculate_degree network | Some d \<Rightarrow> Inr ([], d))"
  have nd: "?D \<noteq> Inl NewRowLabel" by (cases "degree network") simp_all
  show False
  proof (cases ?D)
    case (Inl x)
    with nd have "x \<noteq> NewRowLabel" by auto
    with m Inl show False unfolding merge_2_def by simp
  next
    case (Inr p)
    obtain out0 deg0 where p: "p = (out0, deg0)" by (cases p)
    note d = Inr[unfolded p]
    let ?I = "emap (iloc (map nid (nodes network))) (filter (\<lambda>i. deg0 ! i = 2) [0 ..< length deg0])"
    have ni: "?I \<noteq> Inl NewRowLabel" by (auto dest!: emap_new_row)
    show False
    proof (cases ?I)
      case (Inl x)
      with ni have "x \<noteq> NewRowLabel" by auto
      with m Inl show False unfolding merge_2_def d sum.case prod.case by simp
    next
      case ids: (Inr ids)
      let ?st0 = "\<lparr>edg = edges network, deg = deg0, n2 = remdups ids, eIDtoRemove = [], out = out0\<rparr>"
      have nl: "merge_loop L network print_err ?st0 \<noteq> Some (Inl NewRowLabel)"
        by (rule merge_loop_no_new_row) (use ps in simp)
      from m show False unfolding merge_2_def d sum.case prod.case ids
        using nl by (auto simp: Let_def split: option.splits sum.splits)
    qed
  qed
qed

lemma reroute_edge_no_new_row:
  fixes L :: "('g, 's, 'd::linorder) geolib"
  shows "reroute_edge L c rows i s \<noteq> Inl NewRowLabel"
  by (cases s) (auto simp: reroute_edge_def Let_def dest!: ebind_new_row split: if_splits option.splits)

lemma collapse_roundabout_no_new_row:
  fixes L :: "('g, 's, 'd::linorder) geolib"
  shows "collapse_roundabout L rows x s \<noteq> Inl NewRowLabel"
proof
  assume a: "collapse_roundabout L rows x s = Inl NewRowLabel"
  obtain index roundabout where x: "x = (index, roundabout)" by (cases x)
  obtain new_edge new_edge_id remove_edge where s: "s = (new_edge, new_edge_id, remove_edge)"
    by (cases s)
  from a have "efold (reroute_edge L (centroid L (wgeometry roundabout)) rows)
                 (filter (\<lambda>i. i \<noteq> index) (buffer_query L (map wgeometry rows) (wgeometry roundabout)))
                 (new_edge, new_edge_id, remove_edge @ [index]) = Inl NewRowLabel"
    unfolding x s collapse_roundabout_def by (simp add: Let_def split: if_splits)
  from efold_new_row[OF this] show False by (auto simp: reroute_edge_no_new_row)
qed

lemma clean_roundabouts_no_new_row:
  fixes L :: "('g, 's, 'd::linorder) geolib"
  shows "clean_roundabouts L network \<noteq> Inl NewRowLabel"
proof
  assume "clean_roundabouts L network = Inl NewRowLabel"
  then have "efold (collapse_roundabout L (edges network)) (find_roundabouts L network) ([], [], [])
               = Inl NewRowLabel"
    unfolding clean_roundabouts_def by (auto dest!: ebind_new_row)
  from efold_new_row[OF this] show False by (auto simp: collapse_roundabout_no_new_row)
qed

lemma hanging_step_no_new_row: "hanging_step glen tol d s \<noteq> Inl NewRowLabel"
  by (cases s)
     (auto simp: hanging_step_def dec_both_def dest!: ebind_new_row split: if_splits prod.splits)

lemma drop_hanging_nodes_no_new_row:
  fixes L :: "('g, 's, 'd::linorder) geolib"
  shows "drop_hanging_nodes L tol network \<noteq> Inl NewRowLabel"
proof
  assume a: "drop_hanging_nodes L tol network = Inl NewRowLabel"
  let ?D = "(case degree network of None \<Rightarrow> calculate_degree network | Some d \<Rightarrow> Inr ([], d))"
  have nd: "?D \<noteq> Inl NewRowLabel" by (cases "degree network") simp_all
  show False
  proof (cases ?D)
    case (Inl e)
    with nd have "e \<noteq> NewRowLabel" by auto
    with a Inl show False unfolding drop_hanging_nodes_def by simp
  next
    case (Inr p)
    obtain out0 deg0 where p: "p = (out0, deg0)" by (cases p)
    note d = Inr[unfolded p]
    let ?F = "efold (hanging_step (glength L) tol) (hanging_candidates deg0 (edges network)) ([], deg0)"
    have nf: "?F \<noteq> Inl NewRowLabel"
    proof
      assume "?F = Inl NewRowLabel"
      from efold_new_row[OF this] show False by (auto simp: hanging_step_no_new_row)
    qed
    show False
    proof (cases ?F)
      case (Inl e)
      with nf have "e \<noteq> NewRowLabel" by auto
      with a d Inl show False unfolding drop_hanging_nodes_def by (simp add: Let_def)
    next
      case f: (Inr q)
      obtain drop1 deg1 where q: "q = (drop1, deg1)" by (cases q)
      from a d f q show False unfolding drop_hanging_nodes_def
        by (simp add: Let_def split: if_splits)
    qed
  qed
qed

lemma add_distances_no_new_row: "add_distances L sd net \<noteq> Inl NewRowLabel"
  by (auto simp: add_distances_def dest!: ebind_new_row)

lemma logicCheck_no_new_row: "logicCheck net \<noteq> Inl NewRowLabel"
  by (auto simp: logicCheck_def Let_def dest!: ebind_new_row
           split: if_splits option.splits sum.splits prod.splits)

lemma quickFix_step_no_new_row: "quickFix_step L ids e s \<noteq> Inl NewRowLabel"
  by (cases s) (auto simp: quickFix_step_def Let_def dest!: ebind_new_row split: if_splits prod.splits)

lemma quickFix_no_new_row: "quickFix L net \<noteq> Inl NewRowLabel"
proof
  assume "quickFix L net = Inl NewRowLabel"
  then have "efold (quickFix_step L (map nid (nodes net))) (edges net) ([], []) = Inl NewRowLabel"
    unfolding quickFix_def by (auto simp: Let_def dest!: ebind_new_row)
  from efold_new_row[OF this] show False by (auto simp: quickFix_step_no_new_row)
qed

lemma calculate_time_no_new_row: "calculate_time L e \<noteq> Inl NewRowLabel"
  by (auto simp: calculate_time_def split: option.splits)

lemma add_travel_time_no_new_row: "add_travel_time L net \<noteq> Inl NewRowLabel"
proof
  assume a: "add_travel_time L net = Inl NewRowLabel"
  show False
  proof (cases "add_distances L (\<lambda>a d. (fst a, d)) net")
    case (Inl e)
    then have "e \<noteq> NewRowLabel" using add_distances_no_new_row[of L "\<lambda>a d. (fst a, d)" net] by auto
    with a Inl show False unfolding add_travel_time_def by simp
  next
    case (Inr net0)
    with a have "emap (calculate_time L) (edges net0) = Inl NewRowLabel"
      unfolding add_travel_time_def by (auto dest!: ebind_new_row)
    from emap_new_row[OF this] show False by (auto simp: calculate_time_no_new_row)
  qed
qed

text \<open>
  In the pipeline \<open>merge_2\<close> runs on the table that \<open>drop_hanging_nodes\<close> has
  numbered, so no run of the pipeline takes the branch of \<open>set_edge\<close> that the model
  does not follow.
\<close>

lemma simplify_network_no_new_row:
  fixes L :: "('g, 's, 'd::linorder) geolib" and gdf :: "('g, 'k) way list"
  shows "simplify_network_from_gdf L gdf \<noteq> Some (Inl NewRowLabel)"
proof (cases "clean_roundabouts L (\<lparr>nodes = [], degree = None, edges = gdf\<rparr> :: ('g, ('g, 'k) way) network)")
  case (Inl e)
  then have "e \<noteq> NewRowLabel" using clean_roundabouts_no_new_row[of L] by metis
  with Inl show ?thesis by (simp add: simplify_network_from_gdf_def)
next
  case cr: (Inr net1)
  obtain o1 net5 where at: "add_topology L (add_ids (add_endpoints L (split_edges_at_nodes_pyg L net1))) = (o1, net5)"
    by (cases "add_topology L (add_ids (add_endpoints L (split_edges_at_nodes_pyg L net1)))")
  show ?thesis
  proof (cases "drop_hanging_nodes L (tolerance_default L) net5")
    case (Inl e)
    then have "e \<noteq> NewRowLabel" using drop_hanging_nodes_no_new_row[of L] by metis
    with Inl cr at show ?thesis by (simp add: simplify_network_from_gdf_def Let_def)
  next
    case (Inr p)
    obtain o2 net6 where p: "p = (o2, net6)" by (cases p)
    note dh = Inr[unfolded p]
    have ps: "ids_are_positions (edges net6)" using drop_hanging_nodes_edges[OF dh] by simp
    note nm = merge_2_no_new_row[OF ps, of L False]
    show ?thesis
    proof (cases "merge_2 L False net6")
      case None
      with cr at dh show ?thesis by (simp add: simplify_network_from_gdf_def Let_def)
    next
      case (Some r)
      show ?thesis
      proof (cases r)
        case (Inl e)
        with Some nm have "e \<noteq> NewRowLabel" by auto
        with cr at dh Some Inl show ?thesis by (simp add: simplify_network_from_gdf_def Let_def)
      next
        case (Inr q)
        obtain o3 net7 where q: "q = (o3, net7)" by (cases q)
        have m2: "merge_2 L False net6 = Some (Inr (o3, net7))" using Some Inr q by simp
        have t: "simplify_network_from_gdf L gdf =
                   Some (ebind (add_distances L Pair (reset_ids net7)) (\<lambda>net9.
                          ebind (logicCheck (merge_all_multi net9)) (\<lambda>out4.
                          ebind (quickFix L (merge_all_multi net9)) (\<lambda>(out5, net11).
                          ebind (add_travel_time L net11) (\<lambda>net12.
                            Inr (o1 @ o2 @ o3 @ out4 @ out5, net12))))))"
          using cr at dh m2 by (simp add: simplify_network_from_gdf_def Let_def)
        show ?thesis unfolding t
          by (auto simp: add_distances_no_new_row logicCheck_no_new_row quickFix_no_new_row
                add_travel_time_no_new_row dest!: ebind_new_row)
      qed
    qed
  qed
qed





end
